theory Spec2Isabelle
  imports Main "HOL-Library.Multiset"
begin

section \<open>The notes backend: data model\<close>

text \<open>
  The tables of \<^verbatim>\<open>prisma/schema.prisma\<close>. A table is the list of its rows in insertion
  order; the autoincrement counters are part of the store. Timestamps are natural
  numbers (the reading of the clock when the row is written).
\<close>

type_synonym timestamp = nat

text \<open>
  Text of a request or of a row is a JavaScript string: the list of its UTF-16 code
  units. \<open>utf16\<close> writes an ASCII text as such a list. The messages of the answers
  are constants of the code and stay Isabelle strings.
\<close>

type_synonym js_string = "nat list"

definition utf16 :: "string \<Rightarrow> js_string" where
  "utf16 cs = map of_char cs"

record user =
  user_id :: int
  user_name :: js_string
  user_email :: js_string
  user_password :: js_string
  user_createdAt :: timestamp
  user_updatedAt :: timestamp

record noteRow =
  note_id :: int
  note_title :: js_string
  note_description :: js_string
  note_isProtected :: bool
  note_password :: "js_string option"
  note_ownerId :: int
  note_createdAt :: timestamp
  note_updatedAt :: timestamp

record noteVersion =
  ver_id :: int
  ver_title :: js_string
  ver_description :: js_string
  ver_noteId :: int
  ver_createdAt :: timestamp

record store =
  userTable :: "user list"
  noteTable :: "noteRow list"
  versionTable :: "noteVersion list"
  nextNoteId :: int
  nextVersionId :: int

text \<open>
  The status a handler answers with when it does not answer 2xx: 400, 401, 403, 404
  and 500, each with the message (or the validation messages) of the body.
\<close>

datatype error =
    ValidationError "string list"
  | UnauthorizedError string
  | ForbiddenError string
  | NotFoundError string
  | InternalError string

text \<open>
  A field of a JSON answer: left out (\<^verbatim>\<open>undefined\<close> is dropped by
  \<^verbatim>\<open>res.json\<close>), \<^verbatim>\<open>null\<close>, or a value.
\<close>

datatype 'a json_field = Undefined | Null | Val 'a

record owner_view =
  o_id :: int
  o_name :: js_string
  o_email :: js_string

record note_response =
  r_id :: int
  r_title :: js_string
  r_description :: "js_string json_field"
  r_isProtected :: bool
  r_password :: "js_string json_field"
  r_ownerId :: int
  r_createdAt :: timestamp
  r_updatedAt :: timestamp
  r_owner :: "owner_view json_field"
  r_needsPassword :: "bool json_field"

record note_meta =
  m_id :: int
  m_title :: js_string
  m_isProtected :: bool
  m_createdAt :: timestamp
  m_updatedAt :: timestamp
  m_owner :: "owner_view option"

text \<open>
  An entry of the version list: the entry built from the live note
  (\<^verbatim>\<open>id: 'current'\<close>, \<^verbatim>\<open>isCurrent: true\<close>) with its title, description, noteId and
  createdAt, or a row of the versions table.
\<close>

datatype version_entry =
    CurrentVersion js_string js_string int timestamp
  | Persisted noteVersion

text \<open>
  The body of a note request. A field is absent or holds a value of the column's type.
\<close>

record note_body =
  b_title :: "js_string option"
  b_description :: "js_string option"
  b_isProtected :: "bool option"
  b_password :: "js_string option"

datatype http_method = POST | PATCH

text \<open>
  What the request presents as its identity token, in the cookie or in the bearer
  header: nothing, a token that \<^verbatim>\<open>jwt.verify\<close> refuses, or a token that verifies and
  decodes to a user id.
\<close>

datatype credential = NoToken | InvalidToken | Token int

text \<open>
  The version id of a revert as the handler hands it to the store
  (\<^verbatim>\<open>isNaN(parseInt(versionId)) ? versionId : parseInt(versionId)\<close>): the number
  \<^verbatim>\<open>parseInt\<close> reads from the body's versionId, or, when it reads none, the body's
  value as it came: a text such as \<^verbatim>\<open>'current'\<close>, or nothing at all.
\<close>

datatype version_ref = ParsedId int | RawId "js_string option"

text \<open>
  The password hasher (bcryptjs) is a collaborator: its two functions are parameters
  of the model.
\<close>

record hasher =
  bcrypt_hash :: "js_string \<Rightarrow> js_string"
  bcrypt_compare :: "js_string \<Rightarrow> js_string \<Rightarrow> bool"

section \<open>Store queries\<close>

definition findNote :: "store \<Rightarrow> int \<Rightarrow> noteRow option" where
  "findNote s nid = find (\<lambda>n. note_id n = nid) (noteTable s)"

definition findVersion :: "store \<Rightarrow> int \<Rightarrow> noteVersion option" where
  "findVersion s vid = find (\<lambda>v. ver_id v = vid) (versionTable s)"

definition findUser :: "store \<Rightarrow> int \<Rightarrow> user option" where
  "findUser s uid = find (\<lambda>u. user_id u = uid) (userTable s)"

text \<open>
  \<^verbatim>\<open>findUnique({ where: { id } })\<close> on an \<^verbatim>\<open>Int\<close> id column. The client throws when
  the id it is given is no integer of the 32-bit range of the column, answers
  \<^verbatim>\<open>null\<close> when no row has the id, and the row otherwise. Every id a row carries
  lies in the range of its column, so an id that a row has is never refused.
\<close>

definition fits_Int :: "int \<Rightarrow> bool" where
  "fits_Int k \<longleftrightarrow> - (2 ^ 31) \<le> k \<and> k < 2 ^ 31"

datatype 'a lookup = Threw | NoRow | Row 'a

definition findUnique :: "int \<Rightarrow> 'a option \<Rightarrow> 'a lookup" where
  "findUnique k row =
     (case row of
        Some r \<Rightarrow> Row r
      | None \<Rightarrow> if fits_Int k then NoRow else Threw)"

definition findUniqueNote :: "store \<Rightarrow> int \<Rightarrow> noteRow lookup" where
  "findUniqueNote s nid = findUnique nid (findNote s nid)"

definition findUniqueUser :: "store \<Rightarrow> int \<Rightarrow> user lookup" where
  "findUniqueUser s uid = findUnique uid (findUser s uid)"

text \<open>A version id that is no number is refused by the client like a number out of range.\<close>

definition findUniqueVersion :: "store \<Rightarrow> version_ref \<Rightarrow> noteVersion lookup" where
  "findUniqueVersion s versionId =
     (case versionId of
        ParsedId k \<Rightarrow> findUnique k (findVersion s k)
      | RawId raw \<Rightarrow> Threw)"

definition select_owner :: "user \<Rightarrow> owner_view" where
  "select_owner u = \<lparr>o_id = user_id u, o_name = user_name u, o_email = user_email u\<rparr>"

text \<open>
  \<^verbatim>\<open>findMany({ where: { noteId }, orderBy: { createdAt: 'desc' } })\<close>. The database
  leaves the order of rows with equal timestamps open; the model puts the later row
  first.
\<close>

definition versionsOf :: "store \<Rightarrow> int \<Rightarrow> noteVersion list" where
  "versionsOf s nid = rev (sort_key ver_createdAt (filter (\<lambda>v. ver_noteId v = nid) (versionTable s)))"

definition notesByUpdate :: "store \<Rightarrow> noteRow list" where
  "notesByUpdate s = rev (sort_key note_updatedAt (noteTable s))"

definition insertVersion :: "store \<Rightarrow> js_string \<Rightarrow> js_string \<Rightarrow> int \<Rightarrow> timestamp \<Rightarrow> store" where
  "insertVersion s t d nid now =
     s\<lparr>versionTable := versionTable s @
          [\<lparr>ver_id = nextVersionId s, ver_title = t, ver_description = d,
            ver_noteId = nid, ver_createdAt = now\<rparr>],
       nextVersionId := nextVersionId s + 1\<rparr>"

definition replaceNote :: "store \<Rightarrow> int \<Rightarrow> noteRow \<Rightarrow> store" where
  "replaceNote s nid n' = s\<lparr>noteTable := map (\<lambda>n. if note_id n = nid then n' else n) (noteTable s)\<rparr>"

section \<open>JavaScript values\<close>

definition truthy_bool :: "bool option \<Rightarrow> bool" where
  "truthy_bool v = (case v of None \<Rightarrow> False | Some b \<Rightarrow> b)"

definition truthy_str :: "js_string option \<Rightarrow> bool" where
  "truthy_str v = (case v of None \<Rightarrow> False | Some p \<Rightarrow> p \<noteq> [])"

definition nullable :: "'a option \<Rightarrow> 'a json_field" where
  "nullable v = (case v of None \<Rightarrow> Null | Some x \<Rightarrow> Val x)"

text \<open>
  The code units of the regular expression class \<^verbatim>\<open>\s\<close>: tab, line feed, vertical
  tab, form feed, carriage return, space, U+00A0, U+1680, U+2000 to U+200A, U+2028,
  U+2029, U+202F, U+205F, U+3000 and U+FEFF.
\<close>

definition is_space :: "nat \<Rightarrow> bool" where
  "is_space c \<longleftrightarrow>
     c \<in> set [0x09, 0x0A, 0x0B, 0x0C, 0x0D, 0x20, 0xA0, 0x1680, 0x2028, 0x2029, 0x202F,
              0x205F, 0x3000, 0xFEFF] \<or>
     (0x2000 \<le> c \<and> c \<le> 0x200A)"

text \<open>
  \<^verbatim>\<open>trim()\<close> of validator.js with no characters given: the leading run of \<^verbatim>\<open>\s\<close>
  is cut (\<^verbatim>\<open>/^\s+/\<close>), then the trailing one.
\<close>

definition trim :: "js_string \<Rightarrow> js_string" where
  "trim str = rev (dropWhile is_space (rev (dropWhile is_space str)))"

text \<open>
  What \<^verbatim>\<open>isLength\<close> of validator.js counts: the code units of the string, less one
  for every variation selector U+FE0E or U+FE0F and one for every surrogate pair (the
  matches of \<^verbatim>\<open>/[\uD800-\uDBFF][\uDC00-\uDFFF]/g\<close>, found from left to right).
\<close>

fun surrogate_pairs :: "js_string \<Rightarrow> nat" where
  "surrogate_pairs (h # l # cs) =
     (if 0xD800 \<le> h \<and> h \<le> 0xDBFF \<and> 0xDC00 \<le> l \<and> l \<le> 0xDFFF
      then Suc (surrogate_pairs cs)
      else surrogate_pairs (l # cs))"
| "surrogate_pairs cs = 0"

definition isLength_count :: "js_string \<Rightarrow> nat" where
  "isLength_count str =
     length str - length (filter (\<lambda>c. c = 0xFE0F \<or> c = 0xFE0E) str) - surrogate_pairs str"

text \<open>The validators read a field through \<^verbatim>\<open>toString\<close>: an absent field is the empty string.\<close>

definition field_string :: "js_string option \<Rightarrow> js_string" where
  "field_string v = (case v of None \<Rightarrow> [] | Some x \<Rightarrow> x)"

text \<open>The spread \<^verbatim>\<open>...note\<close> of a row into an answer.\<close>

definition note_json :: "noteRow \<Rightarrow> note_response" where
  "note_json n =
     \<lparr>r_id = note_id n, r_title = note_title n, r_description = Val (note_description n),
      r_isProtected = note_isProtected n, r_password = nullable (note_password n),
      r_ownerId = note_ownerId n, r_createdAt = note_createdAt n,
      r_updatedAt = note_updatedAt n, r_owner = Undefined, r_needsPassword = Undefined\<rparr>"

section \<open>Validation (validationUtils)\<close>

text \<open>
  \<^verbatim>\<open>noteValidation\<close> followed by \<^verbatim>\<open>handleValidationErrors\<close>: the messages of the failed
  validators, and the body with title and description trimmed. The chain of
  \<^verbatim>\<open>password\<close> is optional: it runs only when the field is present. The body is typed,
  so \<^verbatim>\<open>isBoolean\<close> on \<^verbatim>\<open>isProtected\<close> never fails.
\<close>

definition title_errors :: "js_string \<Rightarrow> string list" where
  "title_errors t =
     (if t = [] then [''Title is required''] else []) @
     (if isLength_count t > 255 then [''Title cannot exceed 255 characters''] else [])"

definition description_errors :: "js_string \<Rightarrow> string list" where
  "description_errors d = (if d = [] then [''Description is required''] else [])"

definition password_errors :: "http_method \<Rightarrow> note_body \<Rightarrow> string list" where
  "password_errors m b =
     (case b_password b of
        None \<Rightarrow> []
      | Some v \<Rightarrow>
          if m = POST \<and> truthy_bool (b_isProtected b) \<and> v = []
          then [''Password is required for protected notes''] else [])"

definition noteValidation :: "http_method \<Rightarrow> note_body \<Rightarrow> string list" where
  "noteValidation m b =
     title_errors (trim (field_string (b_title b))) @
     description_errors (trim (field_string (b_description b))) @
     password_errors m b"

definition sanitized :: "note_body \<Rightarrow> note_body" where
  "sanitized b =
     b\<lparr>b_title := Some (trim (field_string (b_title b))),
       b_description := Some (trim (field_string (b_description b)))\<rparr>"

section \<open>Access guard (middleware/authMiddleware)\<close>

text \<open>
  \<^verbatim>\<open>authenticate\<close>. Without a token the request is refused; a token that does not
  verify throws and the catch refuses it; the user the token names is looked up, and
  a lookup that throws ends in the same catch.
\<close>

definition authenticate :: "store \<Rightarrow> credential \<Rightarrow> error + user" where
  "authenticate s c =
     (case c of
        NoToken \<Rightarrow> Inl (UnauthorizedError ''Access denied. No token provided'')
      | InvalidToken \<Rightarrow> Inl (UnauthorizedError ''Invalid token'')
      | Token uid \<Rightarrow>
          (case findUniqueUser s uid of
             Threw \<Rightarrow> Inl (UnauthorizedError ''Invalid token'')
           | NoRow \<Rightarrow> Inl (UnauthorizedError ''User not found'')
           | Row u \<Rightarrow> Inr u))"

text \<open>
  \<^verbatim>\<open>checkNoteOwnership\<close>, for the authenticated user: the note is looked up, a missing
  note is not found, a note of another user is forbidden, and a lookup that throws is
  answered by the catch.
\<close>

definition checkNoteOwnership :: "store \<Rightarrow> user \<Rightarrow> int \<Rightarrow> error + unit" where
  "checkNoteOwnership s u nid =
     (case findUniqueNote s nid of
        Threw \<Rightarrow> Inl (InternalError ''Server error'')
      | NoRow \<Rightarrow> Inl (NotFoundError ''Note not found'')
      | Row n \<Rightarrow>
          if note_ownerId n \<noteq> user_id u
          then Inl (ForbiddenError ''Access denied. You are not the owner of this note'')
          else Inr ())"

section \<open>Note routes (routes/noteRoutes)\<close>

text \<open>
  Every handler takes the store and the clock reading and returns its answer and the
  store after it. A \<^verbatim>\<open>$transaction\<close> is one step of the model. The id of the path is
  the integer \<^verbatim>\<open>parseInt\<close> reads from it; a path whose id is no number lies outside the
  model, and with it the \<^verbatim>\<open>isNaN\<close> answers of the update and delete handlers. A
  lookup that throws ends in the handler's catch. The socket notification is emitted
  inside its own try and catch and changes neither the answer nor the store.
\<close>

subsection \<open>GET /\<close>

definition select_meta :: "store \<Rightarrow> noteRow \<Rightarrow> note_meta" where
  "select_meta s n =
     \<lparr>m_id = note_id n, m_title = note_title n, m_isProtected = note_isProtected n,
      m_createdAt = note_createdAt n, m_updatedAt = note_updatedAt n,
      m_owner = map_option select_owner (findUser s (note_ownerId n))\<rparr>"

definition listNotes :: "store \<Rightarrow> credential \<Rightarrow> error + note_meta list" where
  "listNotes s c =
     (case authenticate s c of
        Inl e \<Rightarrow> Inl e
      | Inr u \<Rightarrow> Inr (map (select_meta s) (notesByUpdate s)))"

subsection \<open>POST /\<close>

definition hashed_password :: "hasher \<Rightarrow> note_body \<Rightarrow> js_string option" where
  "hashed_password H b =
     (if truthy_bool (b_isProtected b) \<and> truthy_str (b_password b)
      then map_option (bcrypt_hash H) (b_password b)
      else b_password b)"

definition createHandler ::
  "hasher \<Rightarrow> store \<Rightarrow> user \<Rightarrow> note_body \<Rightarrow> timestamp \<Rightarrow> (error + note_response) \<times> store" where
  "createHandler H s u b now =
     (let newNote =
            \<lparr>note_id = nextNoteId s, note_title = field_string (b_title b),
             note_description = field_string (b_description b),
             note_isProtected = truthy_bool (b_isProtected b),
             note_password = hashed_password H b, note_ownerId = user_id u,
             note_createdAt = now, note_updatedAt = now\<rparr>;
          s1 = s\<lparr>noteTable := noteTable s @ [newNote], nextNoteId := nextNoteId s + 1\<rparr>
      in (Inr (note_json newNote),
          insertVersion s1 (note_title newNote) (note_description newNote) (note_id newNote) now))"

definition createNote ::
  "hasher \<Rightarrow> store \<Rightarrow> credential \<Rightarrow> note_body \<Rightarrow> timestamp \<Rightarrow> (error + note_response) \<times> store" where
  "createNote H s c b now =
     (case authenticate s c of
        Inl e \<Rightarrow> (Inl e, s)
      | Inr u \<Rightarrow>
          if noteValidation POST b \<noteq> [] then (Inl (ValidationError (noteValidation POST b)), s)
          else createHandler H s u (sanitized b) now)"

subsection \<open>GET /:id\<close>

definition getNote :: "store \<Rightarrow> credential \<Rightarrow> int \<Rightarrow> error + note_response" where
  "getNote s c nid =
     (case authenticate s c of
        Inl e \<Rightarrow> Inl e
      | Inr u \<Rightarrow>
          (case findUniqueNote s nid of
             Threw \<Rightarrow> Inl (InternalError ''Server error'')
           | NoRow \<Rightarrow> Inl (NotFoundError ''Note not found'')
           | Row n \<Rightarrow>
               if note_isProtected n then
                 (case findUser s (note_ownerId n) of
                    None \<Rightarrow> Inl (InternalError ''Server error'')
                  | Some ow \<Rightarrow>
                      if user_id ow \<noteq> user_id u
                      then Inr ((note_json n)
                             \<lparr>r_owner := Val (select_owner ow), r_description := Null,
                              r_needsPassword := Val True, r_password := Undefined\<rparr>)
                      else Inr ((note_json n)
                             \<lparr>r_owner := Val (select_owner ow), r_password := Undefined\<rparr>))
               else Inr ((note_json n)
                      \<lparr>r_owner := nullable (map_option select_owner (findUser s (note_ownerId n))),
                       r_password := Undefined\<rparr>)))"

subsection \<open>POST /:id/unlock\<close>

definition unlockNote ::
  "hasher \<Rightarrow> store \<Rightarrow> credential \<Rightarrow> int \<Rightarrow> js_string option \<Rightarrow> error + note_response" where
  "unlockNote H s c nid password =
     (case authenticate s c of
        Inl e \<Rightarrow> Inl e
      | Inr u \<Rightarrow>
          if \<not> truthy_str password then Inl (ValidationError [''Password is required''])
          else
            (case findUniqueNote s nid of
               Threw \<Rightarrow> Inl (InternalError ''Server error'')
             | NoRow \<Rightarrow> Inl (NotFoundError ''Note not found'')
             | Row n \<Rightarrow>
                 if \<not> note_isProtected n
                 then Inl (ValidationError [''This note is not protected''])
                 else
                   (case note_password n of
                      None \<Rightarrow> Inl (InternalError ''Server error'')
                    | Some h \<Rightarrow>
                        if \<not> bcrypt_compare H (field_string password) h
                        then Inl (UnauthorizedError ''Invalid password'')
                        else Inr ((note_json n)\<lparr>r_password := Undefined\<rparr>))))"

subsection \<open>PATCH /:id\<close>

definition applyUpdate ::
  "noteRow \<Rightarrow> note_body \<Rightarrow> js_string option \<Rightarrow> timestamp \<Rightarrow> noteRow" where
  "applyUpdate n b password now =
     n\<lparr>note_title := (case b_title b of None \<Rightarrow> note_title n | Some t \<Rightarrow> t),
       note_description := (case b_description b of None \<Rightarrow> note_description n | Some d \<Rightarrow> d),
       note_isProtected := (case b_isProtected b of None \<Rightarrow> note_isProtected n | Some p \<Rightarrow> p),
       note_password := (if truthy_str password then password else note_password n),
       note_updatedAt := now\<rparr>"

definition updateHandler ::
  "hasher \<Rightarrow> store \<Rightarrow> int \<Rightarrow> note_body \<Rightarrow> timestamp \<Rightarrow> (error + note_response) \<times> store" where
  "updateHandler H s nid b now =
     (case findUniqueNote s nid of
        Threw \<Rightarrow> (Inl (InternalError ''Server error updating note''), s)
      | NoRow \<Rightarrow> (Inl (NotFoundError ''Note not found''), s)
      | Row currentNote \<Rightarrow>
          if truthy_bool (b_isProtected b) \<and> \<not> truthy_str (b_password b)
             \<and> \<not> note_isProtected currentNote
          then (Inl (ValidationError [''Password is required when protecting a note'']), s)
          else
            (let updatedNote = applyUpdate currentNote b (hashed_password H b) now;
                 s1 = insertVersion s (note_title currentNote) (note_description currentNote)
                        (note_id currentNote) now
             in (Inr ((note_json updatedNote)\<lparr>r_password := Undefined\<rparr>),
                 replaceNote s1 nid updatedNote)))"

definition updateNote ::
  "hasher \<Rightarrow> store \<Rightarrow> credential \<Rightarrow> int \<Rightarrow> note_body \<Rightarrow> timestamp
     \<Rightarrow> (error + note_response) \<times> store" where
  "updateNote H s c nid b now =
     (case authenticate s c of
        Inl e \<Rightarrow> (Inl e, s)
      | Inr u \<Rightarrow>
          (case checkNoteOwnership s u nid of
             Inl e \<Rightarrow> (Inl e, s)
           | Inr _ \<Rightarrow>
               if noteValidation PATCH b \<noteq> []
               then (Inl (ValidationError (noteValidation PATCH b)), s)
               else updateHandler H s nid (sanitized b) now))"

subsection \<open>DELETE /:id\<close>

definition deleteNote :: "store \<Rightarrow> credential \<Rightarrow> int \<Rightarrow> (error + string) \<times> store" where
  "deleteNote s c nid =
     (case authenticate s c of
        Inl e \<Rightarrow> (Inl e, s)
      | Inr u \<Rightarrow>
          (case checkNoteOwnership s u nid of
             Inl e \<Rightarrow> (Inl e, s)
           | Inr _ \<Rightarrow>
               (case findUniqueNote s nid of
                  Threw \<Rightarrow> (Inl (InternalError ''Server error deleting note''), s)
                | NoRow \<Rightarrow> (Inl (NotFoundError ''Note not found''), s)
                | Row n \<Rightarrow>
                    (Inr ''Note deleted successfully'',
                     s\<lparr>noteTable := filter (\<lambda>n. note_id n \<noteq> nid) (noteTable s),
                       versionTable := filter (\<lambda>v. ver_noteId v \<noteq> nid) (versionTable s)\<rparr>))))"

subsection \<open>GET /:id/versions\<close>

definition listVersions :: "store \<Rightarrow> credential \<Rightarrow> int \<Rightarrow> error + version_entry list" where
  "listVersions s c nid =
     (case authenticate s c of
        Inl e \<Rightarrow> Inl e
      | Inr u \<Rightarrow>
          (case findUniqueNote s nid of
             Threw \<Rightarrow> Inl (InternalError ''Server error'')
           | NoRow \<Rightarrow> Inl (NotFoundError ''Note not found'')
           | Row n \<Rightarrow>
               if note_isProtected n \<and> note_ownerId n \<noteq> user_id u
               then Inl (ForbiddenError ''Access denied - Unlock protected note first'')
               else Inr (CurrentVersion (note_title n) (note_description n) (note_id n)
                           (note_updatedAt n)
                         # map Persisted (versionsOf s nid))))"

subsection \<open>POST /:id/revert\<close>

definition revertHandler ::
  "store \<Rightarrow> int \<Rightarrow> version_ref \<Rightarrow> timestamp \<Rightarrow> (error + note_response) \<times> store" where
  "revertHandler s nid versionId now =
     (case findUniqueVersion s versionId of
        Threw \<Rightarrow> (Inl (InternalError ''Server error''), s)
      | NoRow \<Rightarrow> (Inl (NotFoundError ''Version not found''), s)
      | Row version \<Rightarrow>
          if ver_noteId version \<noteq> nid then (Inl (NotFoundError ''Version not found''), s)
          else
            (case findUniqueNote s nid of
               Threw \<Rightarrow> (Inl (InternalError ''Server error''), s)
             | NoRow \<Rightarrow> (Inl (InternalError ''Server error''), s)
             | Row currentNote \<Rightarrow>
                 (let revertedNote =
                        currentNote\<lparr>note_title := ver_title version,
                                    note_description := ver_description version,
                                    note_updatedAt := now\<rparr>;
                      s1 = insertVersion s (note_title currentNote)
                             (note_description currentNote) (note_id currentNote) now
                  in (Inr ((note_json revertedNote)\<lparr>r_password := Undefined\<rparr>),
                      replaceNote s1 nid revertedNote))))"

definition revertNote ::
  "store \<Rightarrow> credential \<Rightarrow> int \<Rightarrow> version_ref \<Rightarrow> timestamp
     \<Rightarrow> (error + note_response) \<times> store" where
  "revertNote s c nid versionId now =
     (case authenticate s c of
        Inl e \<Rightarrow> (Inl e, s)
      | Inr u \<Rightarrow>
          (case checkNoteOwnership s u nid of
             Inl e \<Rightarrow> (Inl e, s)
           | Inr _ \<Rightarrow> revertHandler s nid versionId now))"

section \<open>Well-formed stores and runs of requests\<close>

text \<open>
  An autoincrement counter lies above every id it has issued, and a version belongs
  to a note whose id has been issued.
\<close>

definition wf_store :: "store \<Rightarrow> bool" where
  "wf_store s \<longleftrightarrow>
     list_all (\<lambda>n. note_id n < nextNoteId s) (noteTable s) \<and>
     list_all (\<lambda>v. ver_id v < nextVersionId s) (versionTable s) \<and>
     list_all (\<lambda>v. ver_noteId v < nextNoteId s) (versionTable s)"

text \<open>
  A run of updates of one note by one caller, each with its body and clock reading:
  the store after the last one when all of them succeed.
\<close>

fun updateAll ::
  "hasher \<Rightarrow> store \<Rightarrow> credential \<Rightarrow> int \<Rightarrow> (note_body \<times> timestamp) list \<Rightarrow> store option" where
  "updateAll H s c nid [] = Some s"
| "updateAll H s c nid (p # ps) =
     (case updateNote H s c nid (fst p) (snd p) of
        (Inl e, s') \<Rightarrow> None
      | (Inr r, s') \<Rightarrow> updateAll H s' c nid ps)"

section \<open>Example data\<close>

definition ex_hasher :: hasher where
  "ex_hasher = \<lparr>bcrypt_hash = (\<lambda>p. utf16 ''$2a$12$'' @ p),
                 bcrypt_compare = (\<lambda>p h. h = utf16 ''$2a$12$'' @ p)\<rparr>"

definition ex_alice :: user where
  "ex_alice = \<lparr>user_id = 1, user_name = utf16 ''Alice'', user_email = utf16 ''a@example.com'',
               user_password = utf16 ''x'', user_createdAt = 0, user_updatedAt = 0\<rparr>"

definition ex_bob :: user where
  "ex_bob = \<lparr>user_id = 2, user_name = utf16 ''Bob'', user_email = utf16 ''b@example.com'',
             user_password = utf16 ''y'', user_createdAt = 0, user_updatedAt = 0\<rparr>"

definition ex_empty :: store where
  "ex_empty = \<lparr>userTable = [ex_alice, ex_bob], noteTable = [], versionTable = [],
               nextNoteId = 1, nextVersionId = 1\<rparr>"

definition ex_plain_body :: note_body where
  "ex_plain_body = \<lparr>b_title = Some (utf16 ''T1''), b_description = Some (utf16 ''D1''),
                    b_isProtected = Some False, b_password = None\<rparr>"

definition ex_secret_body :: note_body where
  "ex_secret_body = \<lparr>b_title = Some (utf16 ''T1''), b_description = Some (utf16 ''D1''),
                     b_isProtected = Some True, b_password = Some (utf16 ''secret1A!'')\<rparr>"

text \<open>The store after Alice has created a plain note, and after she has created a protected one.\<close>

definition ex_plain :: store where
  "ex_plain = snd (createNote ex_hasher ex_empty (Token 1) ex_plain_body 10)"

definition ex_secret :: store where
  "ex_secret = snd (createNote ex_hasher ex_empty (Token 1) ex_secret_body 10)"

definition ex_plain_note :: noteRow where
  "ex_plain_note = \<lparr>note_id = 1, note_title = utf16 ''T1'', note_description = utf16 ''D1'',
                    note_isProtected = False, note_password = None, note_ownerId = 1,
                    note_createdAt = 10, note_updatedAt = 10\<rparr>"

text \<open>Alice gives her plain note the title T2.\<close>

definition ex_retitle_body :: note_body where
  "ex_retitle_body = \<lparr>b_title = Some (utf16 ''T2''), b_description = Some (utf16 ''D1''),
                      b_isProtected = None, b_password = None\<rparr>"

definition ex_retitled :: store where
  "ex_retitled = snd (updateNote ex_hasher ex_plain (Token 1) 1 ex_retitle_body 20)"

definition ex_unprotect_body :: note_body where
  "ex_unprotect_body = \<lparr>b_title = Some (utf16 ''T1''), b_description = Some (utf16 ''D1''),
                        b_isProtected = Some False, b_password = None\<rparr>"

definition ex_nopass_body :: note_body where
  "ex_nopass_body = \<lparr>b_title = Some (utf16 ''T1''), b_description = Some (utf16 ''D1''),
                     b_isProtected = Some True, b_password = None\<rparr>"

definition ex_rawpass_body :: note_body where
  "ex_rawpass_body = \<lparr>b_title = Some (utf16 ''T1''), b_description = Some (utf16 ''D1''),
                      b_isProtected = None, b_password = Some (utf16 ''pw'')\<rparr>"

definition ex_secret_note :: noteRow where
  "ex_secret_note = \<lparr>note_id = 1, note_title = utf16 ''T1'', note_description = utf16 ''D1'',
                    note_isProtected = True, note_password = Some (utf16 ''$2a$12$secret1A!''),
                    note_ownerId = 1, note_createdAt = 10, note_updatedAt = 10\<rparr>"

definition ex_untitled_body :: note_body where
  "ex_untitled_body = \<lparr>b_title = None, b_description = Some (utf16 ''D2''),
                       b_isProtected = None, b_password = None\<rparr>"

definition ex_two :: store where
  "ex_two = snd (createNote ex_hasher ex_plain (Token 1) ex_secret_body 11)"

definition ex_retitled_note :: noteRow where
  "ex_retitled_note = \<lparr>note_id = 1, note_title = utf16 ''T2'', note_description = utf16 ''D1'',
                    note_isProtected = False, note_password = None, note_ownerId = 1,
                    note_createdAt = 10, note_updatedAt = 20\<rparr>"

definition ex_reverted :: store where
  "ex_reverted = snd (revertNote ex_retitled (Token 1) 1 (ParsedId 1) 30)"

definition ex_shared :: store where
  "ex_shared = snd (createNote ex_hasher ex_secret (Token 2) ex_plain_body 11)"

text \<open>
  A patch whose title and description come padded with white space: a no-break space
  before and a space after the title, a space before and a paragraph separator and a
  line feed after the description.
\<close>

definition ex_padded_body :: note_body where
  "ex_padded_body = \<lparr>b_title = Some (0xA0 # utf16 ''T2 ''),
                     b_description = Some (utf16 '' D1'' @ [0x2029, 0x0A]),
                     b_isProtected = None, b_password = None\<rparr>"

section \<open>Facts about the store\<close>

lemma find_SomeD: "find P xs = Some x \<Longrightarrow> P x \<and> x \<in> set xs"
  by (induction xs) (auto split: if_splits)

lemma find_append_fresh:
  "list_all (\<lambda>x. \<not> P x) xs \<Longrightarrow> find P (xs @ [y]) = (if P y then Some y else None)"
  by (induction xs) auto

lemma find_replace:
  "find (\<lambda>n. note_id n = k) xs = Some cur \<Longrightarrow> note_id n' = k \<Longrightarrow>
   find (\<lambda>n. note_id n = k) (map (\<lambda>n. if note_id n = k then n' else n) xs) = Some n'"
  by (induction xs) (auto split: if_splits)

lemma findNote_id: "findNote s nid = Some n \<Longrightarrow> note_id n = nid"
  by (auto simp: findNote_def dest: find_SomeD)

lemma findUnique_Row_iff [simp]: "findUnique k row = Row r \<longleftrightarrow> row = Some r"
  by (simp add: findUnique_def split: option.splits)

lemma findUniqueNote_Row_iff [simp]: "findUniqueNote s nid = Row n \<longleftrightarrow> findNote s nid = Some n"
  by (simp add: findUniqueNote_def)

lemma findUniqueUser_Row_iff [simp]: "findUniqueUser s uid = Row u \<longleftrightarrow> findUser s uid = Some u"
  by (simp add: findUniqueUser_def)

lemma findUniqueVersion_Row_iff [simp]:
  "findUniqueVersion s (ParsedId k) = Row v \<longleftrightarrow> findVersion s k = Some v"
  by (simp add: findUniqueVersion_def)

lemma findUniqueNote_found [simp]: "findNote s nid = Some n \<Longrightarrow> findUniqueNote s nid = Row n"
  by simp

lemma findUniqueUser_found [simp]: "findUser s uid = Some u \<Longrightarrow> findUniqueUser s uid = Row u"
  by simp

lemma findUniqueVersion_found [simp]:
  "findVersion s k = Some v \<Longrightarrow> findUniqueVersion s (ParsedId k) = Row v"
  by simp

lemma findNote_replace:
  "findNote s nid = Some cur \<Longrightarrow> note_id n' = nid \<Longrightarrow> findNote (replaceNote s nid n') nid = Some n'"
  by (simp add: findNote_def replaceNote_def find_replace)

lemma findNote_insertVersion [simp]: "findNote (insertVersion s t d k now) nid = findNote s nid"
  by (simp add: findNote_def insertVersion_def)

lemma findUser_insertVersion [simp]: "findUser (insertVersion s t d k now) uid = findUser s uid"
  by (simp add: findUser_def insertVersion_def)

lemma findUser_replaceNote [simp]: "findUser (replaceNote s k n) uid = findUser s uid"
  by (simp add: findUser_def replaceNote_def)

lemma authenticate_insertVersion [simp]:
  "authenticate (insertVersion s t d k now) c = authenticate s c"
  by (simp add: authenticate_def findUniqueUser_def split: credential.splits)

lemma authenticate_replaceNote [simp]: "authenticate (replaceNote s k n) c = authenticate s c"
  by (simp add: authenticate_def findUniqueUser_def split: credential.splits)

lemma versionTable_replaceNote [simp]: "versionTable (replaceNote s k n) = versionTable s"
  by (simp add: replaceNote_def)

lemma versionTable_insertVersion:
  "versionTable (insertVersion s t d k now) = versionTable s @
     [\<lparr>ver_id = nextVersionId s, ver_title = t, ver_description = d, ver_noteId = k, ver_createdAt = now\<rparr>]"
  by (simp add: insertVersion_def)

text \<open>What a successful update is.\<close>

lemma updateHandler_Inr:
  assumes "updateHandler H s nid b now = (Inr r, s')"
  obtains cur where "findNote s nid = Some cur"
    and "\<not> (truthy_bool (b_isProtected b) \<and> \<not> truthy_str (b_password b) \<and> \<not> note_isProtected cur)"
    and "r = (note_json (applyUpdate cur b (hashed_password H b) now))\<lparr>r_password := Undefined\<rparr>"
    and "s' = replaceNote (insertVersion s (note_title cur) (note_description cur) nid now) nid
                (applyUpdate cur b (hashed_password H b) now)"
  using assms
  by (auto simp: updateHandler_def Let_def findNote_id split: lookup.splits if_splits)

lemma updateNote_Inr:
  assumes "updateNote H s c nid b now = (Inr r, s')"
  obtains u cur where "authenticate s c = Inr u" and "findNote s nid = Some cur"
    and "note_ownerId cur = user_id u" and "noteValidation PATCH b = []"
    and "updateHandler H s nid (sanitized b) now = (Inr r, s')"
  using assms
  by (auto simp: updateNote_def checkNoteOwnership_def split: sum.splits lookup.splits if_splits)

lemma updateNote_owner:
  assumes "authenticate s c = Inr u" and "findNote s nid = Some cur"
    and "note_ownerId cur = user_id u"
  shows "updateNote H s c nid b now =
     (if noteValidation PATCH b \<noteq> [] then (Inl (ValidationError (noteValidation PATCH b)), s)
      else updateHandler H s nid (sanitized b) now)"
  using assms by (simp add: updateNote_def checkNoteOwnership_def findUniqueNote_found)

lemma note_id_applyUpdate [simp]: "note_id (applyUpdate n b p now) = note_id n"
  by (simp add: applyUpdate_def)

lemma note_ownerId_applyUpdate [simp]: "note_ownerId (applyUpdate n b p now) = note_ownerId n"
  by (simp add: applyUpdate_def)

lemma updateNote_effect:
  assumes "updateNote H s c nid b now = (Inr r, s')"
  obtains u cur n' where "authenticate s c = Inr u" and "authenticate s' c = Inr u"
    and "findNote s nid = Some cur" and "note_ownerId cur = user_id u"
    and "findNote s' nid = Some n'" and "note_ownerId n' = user_id u"
    and "versionTable s' = versionTable s @
           [\<lparr>ver_id = nextVersionId s, ver_title = note_title cur,
             ver_description = note_description cur, ver_noteId = nid, ver_createdAt = now\<rparr>]"
proof -
  from assms obtain u cur where a: "authenticate s c = Inr u" "findNote s nid = Some cur"
    "note_ownerId cur = user_id u" and h: "updateHandler H s nid (sanitized b) now = (Inr r, s')"
    by (rule updateNote_Inr)
  from h obtain cur' where c: "findNote s nid = Some cur'"
    and s': "s' = replaceNote (insertVersion s (note_title cur') (note_description cur') nid now) nid
                (applyUpdate cur' (sanitized b) (hashed_password H (sanitized b)) now)"
    by (rule updateHandler_Inr)
  from a c have [simp]: "cur' = cur" by simp
  have id: "note_id cur = nid" using a(2) by (rule findNote_id)
  show thesis
  proof (rule that[OF a(1) _ a(2) a(3)])
    show "authenticate s' c = Inr u" using a(1) by (simp add: s')
    show "findNote s' nid = Some (applyUpdate cur (sanitized b) (hashed_password H (sanitized b)) now)"
      unfolding s' using a(2) id by (simp add: findNote_replace)
    show "note_ownerId (applyUpdate cur (sanitized b) (hashed_password H (sanitized b)) now) = user_id u"
      using a(3) by simp
    show "versionTable s' = versionTable s @
           [\<lparr>ver_id = nextVersionId s, ver_title = note_title cur,
             ver_description = note_description cur, ver_noteId = nid, ver_createdAt = now\<rparr>]"
      by (simp add: s' versionTable_insertVersion)
  qed
qed

lemma updateAll_effect:
  "updateAll H s c nid ups = Some s' \<Longrightarrow> authenticate s c = Inr u \<Longrightarrow>
   findNote s nid = Some n \<Longrightarrow> note_ownerId n = user_id u \<Longrightarrow>
   authenticate s' c = Inr u \<and>
   (\<exists>n'. findNote s' nid = Some n' \<and> note_ownerId n' = user_id u) \<and>
   length (filter (\<lambda>v. ver_noteId v = nid) (versionTable s')) =
     length (filter (\<lambda>v. ver_noteId v = nid) (versionTable s)) + length ups"
proof (induction ups arbitrary: s n)
  case Nil
  then show ?case by simp
next
  case (Cons p ps)
  from Cons.prems(1) obtain r s1 where
    step: "updateNote H s c nid (fst p) (snd p) = (Inr r, s1)" and
    rest: "updateAll H s1 c nid ps = Some s'"
    by (auto split: prod.splits sum.splits)
  from step obtain u1 and cur :: noteRow and n1 where e: "authenticate s c = Inr u1" "authenticate s1 c = Inr u1"
    "findNote s1 nid = Some n1" "note_ownerId n1 = user_id u1"
    "versionTable s1 = versionTable s @
           [\<lparr>ver_id = nextVersionId s, ver_title = note_title cur,
             ver_description = note_description cur, ver_noteId = nid, ver_createdAt = snd p\<rparr>]"
    by (rule updateNote_effect) blast
  from e(1) Cons.prems(2) have [simp]: "u1 = u" by simp
  from Cons.IH[OF rest] e have
    "authenticate s' c = Inr u \<and>
     (\<exists>n'. findNote s' nid = Some n' \<and> note_ownerId n' = user_id u) \<and>
     length (filter (\<lambda>v. ver_noteId v = nid) (versionTable s')) =
       length (filter (\<lambda>v. ver_noteId v = nid) (versionTable s1)) + length ps"
    by simp
  then show ?case by (simp add: e(5))
qed

lemma createNote_Inr:
  assumes "createNote H s c b now = (Inr r, s0)"
  obtains u where "authenticate s c = Inr u" and "noteValidation POST b = []"
    and "createHandler H s u (sanitized b) now = (Inr r, s0)"
  using assms by (auto simp: createNote_def split: sum.splits if_splits)

lemma wf_store_fresh_note: "wf_store s \<Longrightarrow> list_all (\<lambda>n. \<not> note_id n = nextNoteId s) (noteTable s)"
  by (auto simp: wf_store_def list_all_iff)

lemma wf_store_fresh_version_note:
  "wf_store s \<Longrightarrow> filter (\<lambda>v. ver_noteId v = nextNoteId s) (versionTable s) = []"
  by (auto simp: wf_store_def list_all_iff filter_empty_conv)

lemma wf_store_fresh_version: "wf_store s \<Longrightarrow> list_all (\<lambda>v. \<not> ver_id v = nextVersionId s) (versionTable s)"
  by (auto simp: wf_store_def list_all_iff)

lemma createHandler_effect:
  assumes "wf_store s" and "createHandler H s u b now = (Inr r, s0)"
  shows "r_id r = nextNoteId s \<and> authenticate s0 c = authenticate s c \<and>
         (\<exists>n. findNote s0 (nextNoteId s) = Some n \<and> note_ownerId n = user_id u) \<and>
         length (filter (\<lambda>v. ver_noteId v = nextNoteId s) (versionTable s0)) = 1"
proof -
  let ?n = "\<lparr>note_id = nextNoteId s, note_title = field_string (b_title b),
             note_description = field_string (b_description b),
             note_isProtected = truthy_bool (b_isProtected b),
             note_password = hashed_password H b, note_ownerId = user_id u,
             note_createdAt = now, note_updatedAt = now\<rparr>"
  let ?s1 = "s\<lparr>noteTable := noteTable s @ [?n], nextNoteId := nextNoteId s + 1\<rparr>"
  from assms(2) have r: "r = note_json ?n"
    and s0: "s0 = insertVersion ?s1 (note_title ?n) (note_description ?n) (note_id ?n) now"
    by (simp_all add: createHandler_def Let_def)
  have "r_id r = nextNoteId s" by (simp add: r note_json_def)
  moreover have "authenticate s0 c = authenticate s c"
    by (simp add: s0 authenticate_def findUniqueUser_def findUser_def insertVersion_def
        split: credential.splits)
  moreover have "findNote s0 (nextNoteId s) = Some ?n"
    using wf_store_fresh_note[OF assms(1)] by (simp add: s0, simp add: findNote_def find_append_fresh)
  moreover have "length (filter (\<lambda>v. ver_noteId v = nextNoteId s) (versionTable s0)) = 1"
    using wf_store_fresh_version_note[OF assms(1)] by (simp add: s0 versionTable_insertVersion)
  ultimately show ?thesis by simp
qed

lemma sorted_desc_versionsOf: "sorted_wrt (\<ge>) (map ver_createdAt (versionsOf s nid))"
  by (simp add: versionsOf_def rev_map[symmetric] sorted_wrt_rev)

section \<open>The examples, evaluated\<close>

lemmas ex_defs = ex_hasher_def ex_alice_def ex_bob_def ex_empty_def ex_plain_body_def ex_secret_body_def
lemmas val_defs = utf16_def truthy_bool_def truthy_str_def nullable_def is_space_def trim_def
  field_string_def note_json_def isLength_count_def title_errors_def description_errors_def
  password_errors_def noteValidation_def sanitized_def
lemmas store_defs = findNote_def findVersion_def findUser_def fits_Int_def findUnique_def
  findUniqueNote_def findUniqueUser_def findUniqueVersion_def select_owner_def versionsOf_def
  notesByUpdate_def insertVersion_def replaceNote_def authenticate_def checkNoteOwnership_def

lemma ex_plain_eq:
  "ex_plain =
     \<lparr>userTable = [ex_alice, ex_bob],
      noteTable = [\<lparr>note_id = 1, note_title = utf16 ''T1'', note_description = utf16 ''D1'',
                    note_isProtected = False, note_password = None, note_ownerId = 1,
                    note_createdAt = 10, note_updatedAt = 10\<rparr>],
      versionTable = [\<lparr>ver_id = 1, ver_title = utf16 ''T1'', ver_description = utf16 ''D1'',
                       ver_noteId = 1, ver_createdAt = 10\<rparr>],
      nextNoteId = 2, nextVersionId = 2\<rparr>"
  by (simp add: ex_plain_def createNote_def createHandler_def hashed_password_def ex_defs val_defs store_defs)

lemma ex_create_plain:
  "createNote ex_hasher ex_empty (Token 1) ex_plain_body 10 = (Inr (note_json ex_plain_note), ex_plain)"
  by (simp add: ex_plain_def ex_plain_note_def createNote_def createHandler_def hashed_password_def ex_defs val_defs store_defs)

lemma ex_update_retitle:
  "\<exists>r. updateNote ex_hasher ex_plain (Token 1) 1 ex_retitle_body 20 = (Inr r, ex_retitled)"
  by (simp add: ex_retitled_def ex_plain_eq ex_retitle_body_def updateNote_def updateHandler_def applyUpdate_def
      hashed_password_def ex_defs val_defs store_defs)

section \<open>The version list after a create and a run of updates\<close>

text \<open>
  C3, as the code has it. On a well-formed store, after a create followed by N
  successful updates of the created note by its owner, the version list the owner gets
  starts with the current entry (title and description of the live note, its
  timestamp the note's last update) followed by exactly N + 1 persisted versions of
  that note, ordered by creation time descending: the snapshot the create seeds and
  one snapshot per update.
\<close>

theorem versions_after_create_and_updates:
  assumes "wf_store s"
    and "createNote H s c b now = (Inr r, s0)"
    and "updateAll H s0 c (r_id r) ups = Some s1"
  shows "\<exists>live vs. findNote s1 (r_id r) = Some live \<and>
      listVersions s1 c (r_id r) =
        Inr (CurrentVersion (note_title live) (note_description live) (r_id r) (note_updatedAt live)
             # map Persisted vs) \<and>
      length vs = length ups + 1 \<and>
      sorted_wrt (\<ge>) (map ver_createdAt vs) \<and>
      mset vs = mset (filter (\<lambda>v. ver_noteId v = r_id r) (versionTable s1))"
proof -
  from assms(2) obtain u where u: "authenticate s c = Inr u"
    and h: "createHandler H s u (sanitized b) now = (Inr r, s0)"
    by (rule createNote_Inr)
  from createHandler_effect[OF assms(1) h, of c] u obtain n where
    id: "r_id r = nextNoteId s" and a0: "authenticate s0 c = Inr u"
    and n: "findNote s0 (r_id r) = Some n" "note_ownerId n = user_id u"
    and len0: "length (filter (\<lambda>v. ver_noteId v = r_id r) (versionTable s0)) = 1"
    by auto
  from updateAll_effect[OF assms(3) a0 n] obtain live where
    a1: "authenticate s1 c = Inr u"
    and live: "findNote s1 (r_id r) = Some live" "note_ownerId live = user_id u"
    and len1: "length (filter (\<lambda>v. ver_noteId v = r_id r) (versionTable s1)) =
               length (filter (\<lambda>v. ver_noteId v = r_id r) (versionTable s0)) + length ups"
    by auto
  have lid: "note_id live = r_id r" using live(1) by (rule findNote_id)
  let ?vs = "versionsOf s1 (r_id r)"
  have "listVersions s1 c (r_id r) =
        Inr (CurrentVersion (note_title live) (note_description live) (r_id r) (note_updatedAt live)
             # map Persisted ?vs)"
    by (simp add: listVersions_def a1 live lid findUniqueNote_found[OF live(1)])
  moreover have "length ?vs = length ups + 1"
    using len0 len1 by (simp add: versionsOf_def)
  moreover have "sorted_wrt (\<ge>) (map ver_createdAt ?vs)"
    by (rule sorted_desc_versionsOf)
  moreover have "mset ?vs = mset (filter (\<lambda>v. ver_noteId v = r_id r) (versionTable s1))"
    by (simp add: versionsOf_def)
  ultimately show ?thesis using live(1) by blast
qed

theorem versions_after_create_and_updates_witness:
  "wf_store ex_empty \<and>
   createNote ex_hasher ex_empty (Token 1) ex_plain_body 10 = (Inr (note_json ex_plain_note), ex_plain) \<and>
   updateAll ex_hasher ex_plain (Token 1) 1 [(ex_retitle_body, 20)] = Some ex_retitled \<and>
   (\<exists>live vs. findNote ex_retitled 1 = Some live \<and>
      listVersions ex_retitled (Token 1) 1 =
        Inr (CurrentVersion (note_title live) (note_description live) 1 (note_updatedAt live)
             # map Persisted vs) \<and>
      length vs = 2 \<and>
      sorted_wrt (\<ge>) (map ver_createdAt vs) \<and>
      mset vs = mset (filter (\<lambda>v. ver_noteId v = 1) (versionTable ex_retitled)))"
proof -
  have w: "wf_store ex_empty" by (simp add: wf_store_def ex_empty_def)
  have c: "createNote ex_hasher ex_empty (Token 1) ex_plain_body 10 = (Inr (note_json ex_plain_note), ex_plain)"
    by (rule ex_create_plain)
  have i: "r_id (note_json ex_plain_note) = 1" by (simp add: note_json_def ex_plain_note_def)
  have u: "updateAll ex_hasher ex_plain (Token 1) 1 [(ex_retitle_body, 20)] = Some ex_retitled"
    using ex_update_retitle by auto
  have l: "length [(ex_retitle_body, 20::nat)] + 1 = 2" by simp
  have u': "updateAll ex_hasher ex_plain (Token 1) (r_id (note_json ex_plain_note))
              [(ex_retitle_body, 20)] = Some ex_retitled"
    unfolding i by (rule u)
  from versions_after_create_and_updates[OF w c u']
  have "\<exists>live vs. findNote ex_retitled 1 = Some live \<and>
      listVersions ex_retitled (Token 1) 1 =
        Inr (CurrentVersion (note_title live) (note_description live) 1 (note_updatedAt live)
             # map Persisted vs) \<and>
      length vs = 2 \<and>
      sorted_wrt (\<ge>) (map ver_createdAt vs) \<and>
      mset vs = mset (filter (\<lambda>v. ver_noteId v = 1) (versionTable ex_retitled))"
    unfolding i l .
  with w c u show ?thesis by blast
qed

text \<open>
  With no update at all the list already holds one persisted version, the one the
  create seeds: the count is N + 1, not N.
\<close>

theorem versions_after_create_counterexample:
  "listVersions (snd (createNote ex_hasher ex_empty (Token 1) ex_plain_body 10)) (Token 1) 1 =
     Inr [CurrentVersion (utf16 ''T1'') (utf16 ''D1'') 1 10,
          Persisted \<lparr>ver_id = 1, ver_title = utf16 ''T1'', ver_description = utf16 ''D1'',
                     ver_noteId = 1, ver_createdAt = 10\<rparr>]"
  by (simp add: listVersions_def createNote_def createHandler_def hashed_password_def ex_defs val_defs store_defs)

section \<open>Handlers, unfolded\<close>

lemmas handler_defs = createNote_def createHandler_def hashed_password_def updateNote_def
  updateHandler_def applyUpdate_def

section \<open>More examples, evaluated\<close>

lemma ex_secret_eq:
  "ex_secret =
     \<lparr>userTable = [ex_alice, ex_bob],
      noteTable = [\<lparr>note_id = 1, note_title = utf16 ''T1'', note_description = utf16 ''D1'',
                    note_isProtected = True, note_password = Some (utf16 ''$2a$12$secret1A!''),
                    note_ownerId = 1, note_createdAt = 10, note_updatedAt = 10\<rparr>],
      versionTable = [\<lparr>ver_id = 1, ver_title = utf16 ''T1'', ver_description = utf16 ''D1'',
                       ver_noteId = 1, ver_createdAt = 10\<rparr>],
      nextNoteId = 2, nextVersionId = 2\<rparr>"
  by (simp add: ex_secret_def handler_defs ex_defs val_defs store_defs)

section \<open>The answer of a create\<close>

text \<open>Read, unlock, update and revert answer without the password field.\<close>

lemma getNote_strips_password: "getNote s c nid = Inr r \<Longrightarrow> r_password r = Undefined"
  by (auto simp: getNote_def split: sum.splits lookup.splits option.splits if_splits)

lemma unlockNote_strips_password: "unlockNote H s c nid pw = Inr r \<Longrightarrow> r_password r = Undefined"
  by (auto simp: unlockNote_def split: sum.splits lookup.splits option.splits if_splits)

lemma updateNote_strips_password:
  "updateNote H s c nid b now = (Inr r, s') \<Longrightarrow> r_password r = Undefined"
  by (auto simp: updateNote_def updateHandler_def Let_def
      split: sum.splits lookup.splits option.splits if_splits)

lemma revertNote_strips_password:
  "revertNote s c nid versionId now = (Inr r, s') \<Longrightarrow> r_password r = Undefined"
  by (auto simp: revertNote_def revertHandler_def Let_def
      split: sum.splits lookup.splits option.splits if_splits)

text \<open>
  C1. Read, unlock, update and revert answer with \<^verbatim>\<open>password: undefined\<close>; the create
  handler answers with the row as inserted. When Alice creates a protected note with
  the password secret1A!, the answer carries the hash of that password in its password
  field, whatever the hasher is.
\<close>

theorem create_response_carries_hash:
  "map_sum id r_password (fst (createNote H ex_empty (Token 1) ex_secret_body 10)) =
     Inr (Val (bcrypt_hash H (utf16 ''secret1A!'')))"
  by (simp add: handler_defs ex_defs val_defs store_defs)

section \<open>The protection flag and the stored password\<close>

text \<open>
  C2. The stored password and the protection flag part ways. When Alice updates her
  protected note with isProtected false, the update succeeds and the note is stored
  unprotected with its old hash. When she creates a note with isProtected true and no
  password field at all, the optional password chain does not run, the create succeeds,
  and the note is stored protected with no password.
\<close>

theorem protection_flag_and_hash_diverge:
  "(\<exists>r s'. updateNote ex_hasher ex_secret (Token 1) 1 ex_unprotect_body 20 = (Inr r, s') \<and>
       map_option (\<lambda>n. (note_isProtected n, note_password n)) (findNote s' 1) =
         Some (False, Some (utf16 ''$2a$12$secret1A!''))) \<and>
   (\<exists>r s'. createNote ex_hasher ex_empty (Token 1) ex_nopass_body 10 = (Inr r, s') \<and>
       map_option (\<lambda>n. (note_isProtected n, note_password n)) (findNote s' 1) =
         Some (True, None))"
  by (simp add: ex_secret_eq ex_unprotect_body_def ex_nopass_body_def handler_defs ex_defs val_defs store_defs)

section \<open>Updates by the owner\<close>

lemma hashed_password_sanitized [simp]: "hashed_password H (sanitized b) = hashed_password H b"
  by (simp add: hashed_password_def sanitized_def)

lemma updateHandler_ok:
  assumes "findNote s nid = Some cur"
    and "\<not> (truthy_bool (b_isProtected b) \<and> \<not> truthy_str (b_password b) \<and> \<not> note_isProtected cur)"
  shows "updateHandler H s nid b now =
     (Inr ((note_json (applyUpdate cur b (hashed_password H b) now))\<lparr>r_password := Undefined\<rparr>),
      replaceNote (insertVersion s (note_title cur) (note_description cur) nid now) nid
        (applyUpdate cur b (hashed_password H b) now))"
  using assms findNote_id[OF assms(1)] by (auto simp: updateHandler_def Let_def)

lemma updateNote_ok:
  assumes "authenticate s c = Inr u" and "findNote s nid = Some cur"
    and "note_ownerId cur = user_id u" and "noteValidation PATCH b = []"
    and "\<not> (truthy_bool (b_isProtected b) \<and> \<not> truthy_str (b_password b) \<and> \<not> note_isProtected cur)"
  shows "updateNote H s c nid b now =
           (Inr ((note_json (applyUpdate cur (sanitized b) (hashed_password H b) now))
                   \<lparr>r_password := Undefined\<rparr>),
            replaceNote (insertVersion s (note_title cur) (note_description cur) nid now) nid
              (applyUpdate cur (sanitized b) (hashed_password H b) now))"
    and "findNote (snd (updateNote H s c nid b now)) nid =
           Some (applyUpdate cur (sanitized b) (hashed_password H b) now)"
proof -
  have g: "\<not> (truthy_bool (b_isProtected (sanitized b)) \<and> \<not> truthy_str (b_password (sanitized b))
             \<and> \<not> note_isProtected cur)"
    using assms(5) by (simp add: sanitized_def)
  show e: "updateNote H s c nid b now =
           (Inr ((note_json (applyUpdate cur (sanitized b) (hashed_password H b) now))
                   \<lparr>r_password := Undefined\<rparr>),
            replaceNote (insertVersion s (note_title cur) (note_description cur) nid now) nid
              (applyUpdate cur (sanitized b) (hashed_password H b) now))"
    using updateHandler_ok[OF assms(2) g, of H now] assms(4)
    by (simp add: updateNote_owner[OF assms(1,2,3)])
  show "findNote (snd (updateNote H s c nid b now)) nid =
           Some (applyUpdate cur (sanitized b) (hashed_password H b) now)"
    using assms(2) findNote_id[OF assms(2)] by (simp add: e findNote_replace)
qed

text \<open>
  C9. An update by the owner that passes validation and whose body holds a non-empty
  password, with isProtected absent or false, succeeds and stores that password string
  as it is, for every hasher: it is not hashed.
\<close>

theorem update_password_unhashed:
  assumes "authenticate s c = Inr u" and "findNote s nid = Some cur"
    and "note_ownerId cur = user_id u" and "noteValidation PATCH b = []"
    and "b_password b = Some p" and "p \<noteq> []"
    and "b_isProtected b = None \<or> b_isProtected b = Some False"
  shows "\<exists>r s' n'. updateNote H s c nid b now = (Inr r, s') \<and>
           findNote s' nid = Some n' \<and> note_password n' = Some p"
proof -
  have g: "\<not> (truthy_bool (b_isProtected b) \<and> \<not> truthy_str (b_password b) \<and> \<not> note_isProtected cur)"
    using assms(5,6) by (simp add: truthy_str_def)
  let ?n = "applyUpdate cur (sanitized b) (hashed_password H b) now"
  have "hashed_password H b = Some p"
    using assms(5,7) by (auto simp: hashed_password_def truthy_bool_def)
  then have "note_password ?n = Some p"
    using assms(6) by (simp add: applyUpdate_def truthy_str_def)
  with updateNote_ok[OF assms(1-4) g, of H now] show ?thesis by auto
qed

lemma ex_auth_alice [simp]: "authenticate ex_plain (Token 1) = Inr ex_alice"
  by (simp add: ex_plain_eq authenticate_def findUser_def ex_alice_def)

lemma ex_auth_alice_secret [simp]: "authenticate ex_secret (Token 1) = Inr ex_alice"
  by (simp add: ex_secret_eq authenticate_def findUser_def ex_alice_def)

lemma ex_find_plain [simp]: "findNote ex_plain 1 = Some ex_plain_note"
  by (simp add: ex_plain_eq findNote_def ex_plain_note_def)

lemma ex_find_secret [simp]: "findNote ex_secret 1 = Some ex_secret_note"
  by (simp add: ex_secret_eq findNote_def ex_secret_note_def)

lemma ex_owner_plain [simp]: "note_ownerId ex_plain_note = user_id ex_alice"
  by (simp add: ex_plain_note_def ex_alice_def)

lemma ex_owner_secret [simp]: "note_ownerId ex_secret_note = user_id ex_alice"
  by (simp add: ex_secret_note_def ex_alice_def)

lemma ex_valid_bodies [simp]:
  "noteValidation PATCH ex_rawpass_body = []"
  "noteValidation PATCH ex_unprotect_body = []"
  "noteValidation PATCH ex_secret_body = []"
  "noteValidation PATCH ex_retitle_body = []"
  by (simp_all add: ex_rawpass_body_def ex_unprotect_body_def ex_secret_body_def ex_retitle_body_def val_defs)

theorem update_password_unhashed_witness:
  "authenticate ex_plain (Token 1) = Inr ex_alice \<and> findNote ex_plain 1 = Some ex_plain_note \<and>
   note_ownerId ex_plain_note = user_id ex_alice \<and> noteValidation PATCH ex_rawpass_body = [] \<and>
   b_password ex_rawpass_body = Some (utf16 ''pw'') \<and> utf16 ''pw'' \<noteq> [] \<and>
   b_isProtected ex_rawpass_body = None \<and>
   (\<exists>r s' n'. updateNote ex_hasher ex_plain (Token 1) 1 ex_rawpass_body 20 = (Inr r, s') \<and>
      findNote s' 1 = Some n' \<and> note_password n' = Some (utf16 ''pw''))"
proof -
  have p: "b_password ex_rawpass_body = Some (utf16 ''pw'')" and q: "utf16 ''pw'' \<noteq> []"
    and i: "b_isProtected ex_rawpass_body = None \<or> b_isProtected ex_rawpass_body = Some False"
    and i': "b_isProtected ex_rawpass_body = None"
    by (simp_all add: ex_rawpass_body_def utf16_def)
  from update_password_unhashed[OF ex_auth_alice ex_find_plain ex_owner_plain ex_valid_bodies(1) p q i,
      of ex_hasher 20]
  show ?thesis using p q i' by simp
qed

text \<open>
  C6, as the code has it. For an update of an existing note by its owner: when the
  patch sets isProtected to true, the note is not yet protected and the password is
  absent or empty, the update fails with a validation error and the store is unchanged;
  with a non-empty password and a patch that passes validation it succeeds and the note
  is stored protected with the hash of that password. When the note is already
  protected and the patch carries no password, the update succeeds and the stored
  password is the one the note had, provided the patch passes validation, that is,
  carries a valid title and description; a patch that does not pass validation is
  refused with its validation messages and the store is unchanged.
\<close>

theorem protection_password_rule:
  assumes "authenticate s c = Inr u" and "findNote s nid = Some cur"
    and "note_ownerId cur = user_id u"
  shows "(b_isProtected b = Some True \<and> \<not> note_isProtected cur \<and> \<not> truthy_str (b_password b) \<longrightarrow>
            (\<exists>msgs. updateNote H s c nid b now = (Inl (ValidationError msgs), s))) \<and>
         (b_isProtected b = Some True \<and> \<not> note_isProtected cur \<and> truthy_str (b_password b) \<and>
          noteValidation PATCH b = [] \<and> bcrypt_hash H (field_string (b_password b)) \<noteq> [] \<longrightarrow>
            (\<exists>r s' n'. updateNote H s c nid b now = (Inr r, s') \<and> findNote s' nid = Some n' \<and>
               note_isProtected n' \<and>
               note_password n' = Some (bcrypt_hash H (field_string (b_password b))))) \<and>
         (note_isProtected cur \<and> \<not> truthy_str (b_password b) \<and> noteValidation PATCH b = [] \<longrightarrow>
            (\<exists>r s' n'. updateNote H s c nid b now = (Inr r, s') \<and> findNote s' nid = Some n' \<and>
               note_password n' = note_password cur)) \<and>
         (noteValidation PATCH b \<noteq> [] \<longrightarrow>
            updateNote H s c nid b now = (Inl (ValidationError (noteValidation PATCH b)), s))"
proof (intro conjI impI)
  assume a: "b_isProtected b = Some True \<and> \<not> note_isProtected cur \<and> \<not> truthy_str (b_password b)"
  then have g: "truthy_bool (b_isProtected (sanitized b)) \<and> \<not> truthy_str (b_password (sanitized b))
                \<and> \<not> note_isProtected cur"
    by (simp add: sanitized_def truthy_bool_def)
  have "updateHandler H s nid (sanitized b) now =
          (Inl (ValidationError [''Password is required when protecting a note'']), s)"
    using g assms(2) by (simp add: updateHandler_def)
  then show "\<exists>msgs. updateNote H s c nid b now = (Inl (ValidationError msgs), s)"
    by (simp add: updateNote_owner[OF assms])
next
  assume a: "b_isProtected b = Some True \<and> \<not> note_isProtected cur \<and> truthy_str (b_password b) \<and>
          noteValidation PATCH b = [] \<and> bcrypt_hash H (field_string (b_password b)) \<noteq> []"
  then have g: "\<not> (truthy_bool (b_isProtected b) \<and> \<not> truthy_str (b_password b) \<and> \<not> note_isProtected cur)"
    by simp
  let ?n = "applyUpdate cur (sanitized b) (hashed_password H b) now"
  from a have v: "noteValidation PATCH b = []" by simp
  from a obtain p where p: "b_password b = Some p" "p \<noteq> []"
    by (auto simp: truthy_str_def split: option.splits)
  have "hashed_password H b = Some (bcrypt_hash H p)"
    using a p by (simp add: hashed_password_def truthy_bool_def truthy_str_def)
  then have "note_isProtected ?n \<and> note_password ?n = Some (bcrypt_hash H (field_string (b_password b)))"
    using a p by (simp add: applyUpdate_def sanitized_def truthy_str_def field_string_def)
  with updateNote_ok[OF assms v g, of H now]
  show "\<exists>r s' n'. updateNote H s c nid b now = (Inr r, s') \<and> findNote s' nid = Some n' \<and>
               note_isProtected n' \<and>
               note_password n' = Some (bcrypt_hash H (field_string (b_password b)))"
    by auto
next
  assume a: "note_isProtected cur \<and> \<not> truthy_str (b_password b) \<and> noteValidation PATCH b = []"
  then have g: "\<not> (truthy_bool (b_isProtected b) \<and> \<not> truthy_str (b_password b) \<and> \<not> note_isProtected cur)"
    by simp
  let ?n = "applyUpdate cur (sanitized b) (hashed_password H b) now"
  from a have v: "noteValidation PATCH b = []" by simp
  have "\<not> truthy_str (hashed_password H b)"
    using a by (simp add: hashed_password_def)
  then have "note_password ?n = note_password cur"
    by (simp add: applyUpdate_def)
  with updateNote_ok[OF assms v g, of H now]
  show "\<exists>r s' n'. updateNote H s c nid b now = (Inr r, s') \<and> findNote s' nid = Some n' \<and>
               note_password n' = note_password cur"
    by auto
next
  assume "noteValidation PATCH b \<noteq> []"
  then show "updateNote H s c nid b now = (Inl (ValidationError (noteValidation PATCH b)), s)"
    by (simp add: updateNote_owner[OF assms])
qed

text \<open>
  Alice's note is protected and her patch carries no password, but no title either: the
  update does not succeed, it is refused with \<^verbatim>\<open>Title is required\<close>.
\<close>

theorem protection_password_rule_counterexample:
  "findNote ex_secret 1 = Some ex_secret_note \<and> note_isProtected ex_secret_note \<and>
   b_password ex_untitled_body = None \<and>
   updateNote ex_hasher ex_secret (Token 1) 1 ex_untitled_body 20 =
     (Inl (ValidationError [''Title is required'']), ex_secret)"
  by (simp add: updateNote_owner[OF ex_auth_alice_secret ex_find_secret ex_owner_secret]
      ex_untitled_body_def ex_secret_note_def val_defs)

theorem protection_password_rule_witness:
  "authenticate ex_plain (Token 1) = Inr ex_alice \<and> findNote ex_plain 1 = Some ex_plain_note \<and>
   note_ownerId ex_plain_note = user_id ex_alice \<and>
   b_isProtected ex_nopass_body = Some True \<and> \<not> note_isProtected ex_plain_note \<and>
   \<not> truthy_str (b_password ex_nopass_body) \<and>
   (\<exists>msgs. updateNote ex_hasher ex_plain (Token 1) 1 ex_nopass_body 20 =
             (Inl (ValidationError msgs), ex_plain)) \<and>
   b_isProtected ex_secret_body = Some True \<and> truthy_str (b_password ex_secret_body) \<and>
   noteValidation PATCH ex_secret_body = [] \<and>
   bcrypt_hash ex_hasher (field_string (b_password ex_secret_body)) \<noteq> [] \<and>
   (\<exists>r s' n'. updateNote ex_hasher ex_plain (Token 1) 1 ex_secret_body 20 = (Inr r, s') \<and>
      findNote s' 1 = Some n' \<and> note_isProtected n' \<and>
      note_password n' = Some (bcrypt_hash ex_hasher (field_string (b_password ex_secret_body)))) \<and>
   authenticate ex_secret (Token 1) = Inr ex_alice \<and> findNote ex_secret 1 = Some ex_secret_note \<and>
   note_ownerId ex_secret_note = user_id ex_alice \<and>
   note_isProtected ex_secret_note \<and> \<not> truthy_str (b_password ex_retitle_body) \<and>
   noteValidation PATCH ex_retitle_body = [] \<and>
   (\<exists>r s' n'. updateNote ex_hasher ex_secret (Token 1) 1 ex_retitle_body 20 = (Inr r, s') \<and>
      findNote s' 1 = Some n' \<and> note_password n' = note_password ex_secret_note) \<and>
   noteValidation PATCH ex_untitled_body = [''Title is required''] \<and>
   updateNote ex_hasher ex_secret (Token 1) 1 ex_untitled_body 20 =
     (Inl (ValidationError [''Title is required'']), ex_secret)"
proof -
  have h1: "b_isProtected ex_nopass_body = Some True" "\<not> note_isProtected ex_plain_note"
    "\<not> truthy_str (b_password ex_nopass_body)"
    by (simp_all add: ex_nopass_body_def ex_plain_note_def truthy_str_def)
  have h2: "b_isProtected ex_secret_body = Some True" "truthy_str (b_password ex_secret_body)"
    "bcrypt_hash ex_hasher (field_string (b_password ex_secret_body)) \<noteq> []"
    by (simp_all add: ex_secret_body_def truthy_str_def ex_hasher_def field_string_def utf16_def)
  have h3: "note_isProtected ex_secret_note" "\<not> truthy_str (b_password ex_retitle_body)"
    by (simp_all add: ex_secret_note_def ex_retitle_body_def truthy_str_def)
  note p = protection_password_rule[OF ex_auth_alice ex_find_plain ex_owner_plain, of _ ex_hasher 20]
  note q = protection_password_rule[OF ex_auth_alice_secret ex_find_secret ex_owner_secret,
      of ex_retitle_body ex_hasher 20]
  from p[of ex_nopass_body] h1 have c1:
    "\<exists>msgs. updateNote ex_hasher ex_plain (Token 1) 1 ex_nopass_body 20 =
             (Inl (ValidationError msgs), ex_plain)"
    by blast
  from p[of ex_secret_body] h1(2) h2 ex_valid_bodies(3) have c2:
    "\<exists>r s' n'. updateNote ex_hasher ex_plain (Token 1) 1 ex_secret_body 20 = (Inr r, s') \<and>
      findNote s' 1 = Some n' \<and> note_isProtected n' \<and>
      note_password n' = Some (bcrypt_hash ex_hasher (field_string (b_password ex_secret_body)))"
    by blast
  have h4: "noteValidation PATCH ex_untitled_body = [''Title is required'']"
    by (simp add: ex_untitled_body_def val_defs)
  from protection_password_rule[OF ex_auth_alice_secret ex_find_secret ex_owner_secret,
      of ex_untitled_body ex_hasher 20]
  have c4: "updateNote ex_hasher ex_secret (Token 1) 1 ex_untitled_body 20 =
     (Inl (ValidationError [''Title is required'']), ex_secret)"
    by (simp add: h4)
  from q h3 ex_valid_bodies(4) have c3:
    "\<exists>r s' n'. updateNote ex_hasher ex_secret (Token 1) 1 ex_retitle_body 20 = (Inr r, s') \<and>
      findNote s' 1 = Some n' \<and> note_password n' = note_password ex_secret_note"
    by blast
  show ?thesis
    using h1 h2 h3 h4 c1 c2 c3 c4 ex_auth_alice ex_find_plain ex_owner_plain ex_valid_bodies(3,4)
      ex_auth_alice_secret ex_find_secret ex_owner_secret
    by blast
qed

section \<open>Which patch fields are optional\<close>

lemma noteValidation_PATCH_iff:
  "noteValidation PATCH b = [] \<longleftrightarrow>
     trim (field_string (b_title b)) \<noteq> [] \<and> isLength_count (trim (field_string (b_title b))) \<le> 255 \<and>
     trim (field_string (b_description b)) \<noteq> []"
  by (auto simp: noteValidation_def title_errors_def description_errors_def password_errors_def
      split: option.splits)

lemma trim_Nil [simp]: "trim [] = []"
  by (simp add: trim_def)

text \<open>
  C4, as the code has it. Title and description are mandatory in every patch: an update
  by the owner whose patch omits either fails with a validation error and leaves the
  store unchanged. isProtected and password are optional: when title and description
  are valid (not blank once their white space is trimmed, the trimmed title counting at
  most 255 characters) and the patch does not newly protect the note without a
  password, the update succeeds, the stored title and description are the trimmed
  values of the patch, the stored flag is the patch's isProtected when present and the
  old flag when omitted, and an omitted password leaves the stored password unchanged.
\<close>

theorem update_patch_fields:
  assumes "authenticate s c = Inr u" and "findNote s nid = Some cur"
    and "note_ownerId cur = user_id u"
  shows "(b_title b = None \<or> b_description b = None \<longrightarrow>
            (\<exists>msgs. msgs \<noteq> [] \<and> updateNote H s c nid b now = (Inl (ValidationError msgs), s))) \<and>
         (trim (field_string (b_title b)) \<noteq> [] \<and> isLength_count (trim (field_string (b_title b))) \<le> 255 \<and>
          trim (field_string (b_description b)) \<noteq> [] \<and>
          \<not> (truthy_bool (b_isProtected b) \<and> \<not> truthy_str (b_password b) \<and> \<not> note_isProtected cur) \<longrightarrow>
            (\<exists>r s' n'. updateNote H s c nid b now = (Inr r, s') \<and> findNote s' nid = Some n' \<and>
               note_title n' = trim (field_string (b_title b)) \<and>
               note_description n' = trim (field_string (b_description b)) \<and>
               note_isProtected n' =
                 (case b_isProtected b of None \<Rightarrow> note_isProtected cur | Some p \<Rightarrow> p) \<and>
               (b_password b = None \<longrightarrow> note_password n' = note_password cur)))"
proof (intro conjI impI)
  assume "b_title b = None \<or> b_description b = None"
  then have "noteValidation PATCH b \<noteq> []"
    by (auto simp: noteValidation_PATCH_iff field_string_def)
  then show "\<exists>msgs. msgs \<noteq> [] \<and> updateNote H s c nid b now = (Inl (ValidationError msgs), s)"
    by (simp add: updateNote_owner[OF assms])
next
  assume a: "trim (field_string (b_title b)) \<noteq> [] \<and> isLength_count (trim (field_string (b_title b))) \<le> 255 \<and>
          trim (field_string (b_description b)) \<noteq> [] \<and>
          \<not> (truthy_bool (b_isProtected b) \<and> \<not> truthy_str (b_password b) \<and> \<not> note_isProtected cur)"
  then have v: "noteValidation PATCH b = []" by (simp add: noteValidation_PATCH_iff)
  from a have g: "\<not> (truthy_bool (b_isProtected b) \<and> \<not> truthy_str (b_password b) \<and> \<not> note_isProtected cur)"
    by simp
  let ?n = "applyUpdate cur (sanitized b) (hashed_password H b) now"
  have "note_title ?n = trim (field_string (b_title b)) \<and>
        note_description ?n = trim (field_string (b_description b)) \<and>
        note_isProtected ?n = (case b_isProtected b of None \<Rightarrow> note_isProtected cur | Some p \<Rightarrow> p) \<and>
        (b_password b = None \<longrightarrow> note_password ?n = note_password cur)"
    by (simp add: applyUpdate_def sanitized_def hashed_password_def truthy_str_def)
  with updateNote_ok[OF assms v g, of H now]
  show "\<exists>r s' n'. updateNote H s c nid b now = (Inr r, s') \<and> findNote s' nid = Some n' \<and>
               note_title n' = trim (field_string (b_title b)) \<and>
               note_description n' = trim (field_string (b_description b)) \<and>
               note_isProtected n' =
                 (case b_isProtected b of None \<Rightarrow> note_isProtected cur | Some p \<Rightarrow> p) \<and>
               (b_password b = None \<longrightarrow> note_password n' = note_password cur)"
    by auto
qed

text \<open>
  A patch of Alice's plain note that omits the title is refused with
  \<^verbatim>\<open>Title is required\<close>, and nothing is stored.
\<close>

theorem update_patch_fields_counterexample:
  "updateNote ex_hasher ex_plain (Token 1) 1
     \<lparr>b_title = None, b_description = Some (utf16 ''D2''), b_isProtected = None, b_password = None\<rparr> 20 =
   (Inl (ValidationError [''Title is required'']), ex_plain)"
  by (simp add: updateNote_owner[OF ex_auth_alice ex_find_plain ex_owner_plain] val_defs)

lemma ex_padded_trimmed:
  "trim (field_string (b_title ex_padded_body)) = utf16 ''T2''"
  "trim (field_string (b_description ex_padded_body)) = utf16 ''D1''"
  by (simp_all add: ex_padded_body_def val_defs)

theorem update_patch_fields_witness:
  "authenticate ex_plain (Token 1) = Inr ex_alice \<and> findNote ex_plain 1 = Some ex_plain_note \<and>
   note_ownerId ex_plain_note = user_id ex_alice \<and>
   b_title ex_untitled_body = None \<and>
   (\<exists>msgs. msgs \<noteq> [] \<and> updateNote ex_hasher ex_plain (Token 1) 1 ex_untitled_body 20 =
      (Inl (ValidationError msgs), ex_plain)) \<and>
   b_title ex_padded_body = Some (0xA0 # utf16 ''T2 '') \<and>
   b_description ex_padded_body = Some (utf16 '' D1'' @ [0x2029, 0x0A]) \<and>
   trim (field_string (b_title ex_padded_body)) = utf16 ''T2'' \<and>
   trim (field_string (b_description ex_padded_body)) = utf16 ''D1'' \<and>
   isLength_count (utf16 ''T2'') \<le> 255 \<and>
   b_isProtected ex_padded_body = None \<and> b_password ex_padded_body = None \<and>
   (\<exists>r s' n'. updateNote ex_hasher ex_plain (Token 1) 1 ex_padded_body 20 = (Inr r, s') \<and>
      findNote s' 1 = Some n' \<and> note_title n' = utf16 ''T2'' \<and>
      note_description n' = utf16 ''D1'' \<and>
      note_isProtected n' = note_isProtected ex_plain_note \<and>
      note_password n' = note_password ex_plain_note)"
proof -
  note p = update_patch_fields[OF ex_auth_alice ex_find_plain ex_owner_plain, of _ ex_hasher 20]
  have h1: "b_title ex_untitled_body = None" by (simp add: ex_untitled_body_def)
  have h2: "b_title ex_padded_body = Some (0xA0 # utf16 ''T2 '')"
    "b_description ex_padded_body = Some (utf16 '' D1'' @ [0x2029, 0x0A])"
    "b_isProtected ex_padded_body = None" "b_password ex_padded_body = None"
    by (simp_all add: ex_padded_body_def)
  have h3: "isLength_count (utf16 ''T2'') \<le> 255" "utf16 ''T2'' \<noteq> []" "utf16 ''D1'' \<noteq> []"
    by (simp_all add: isLength_count_def utf16_def)
  from p[of ex_untitled_body] h1 have c1:
    "\<exists>msgs. msgs \<noteq> [] \<and> updateNote ex_hasher ex_plain (Token 1) 1 ex_untitled_body 20 =
      (Inl (ValidationError msgs), ex_plain)"
    by blast
  from p[of ex_padded_body] h3 have c2:
    "\<exists>r s' n'. updateNote ex_hasher ex_plain (Token 1) 1 ex_padded_body 20 = (Inr r, s') \<and>
      findNote s' 1 = Some n' \<and> note_title n' = utf16 ''T2'' \<and>
      note_description n' = utf16 ''D1'' \<and>
      note_isProtected n' = note_isProtected ex_plain_note \<and>
      note_password n' = note_password ex_plain_note"
    by (simp add: ex_padded_trimmed h2(3,4) truthy_bool_def)
  show ?thesis
    using h1 h2 h3(1) ex_padded_trimmed c1 c2 ex_auth_alice ex_find_plain ex_owner_plain by blast
qed

section \<open>Reverts\<close>

lemma findVersion_replaceNote [simp]: "findVersion (replaceNote s k n) vid = findVersion s vid"
  by (simp add: findVersion_def)

lemma findVersion_insert_fresh:
  "wf_store s \<Longrightarrow> findVersion (insertVersion s t d k now) (nextVersionId s) =
     Some \<lparr>ver_id = nextVersionId s, ver_title = t, ver_description = d, ver_noteId = k,
           ver_createdAt = now\<rparr>"
  using wf_store_fresh_version[of s]
  by (simp add: findVersion_def versionTable_insertVersion find_append_fresh)

lemma revertNote_owner:
  assumes "authenticate s c = Inr u" and "findNote s nid = Some n" and "note_ownerId n = user_id u"
  shows "revertNote s c nid versionId now = revertHandler s nid versionId now"
  using assms by (simp add: revertNote_def checkNoteOwnership_def findUniqueNote_found)

lemma revertHandler_ok:
  assumes "findVersion s vid = Some v" and "ver_noteId v = nid" and "findNote s nid = Some cur"
  shows "revertHandler s nid (ParsedId vid) now =
     (Inr ((note_json (cur\<lparr>note_title := ver_title v, note_description := ver_description v,
                            note_updatedAt := now\<rparr>))\<lparr>r_password := Undefined\<rparr>),
      replaceNote (insertVersion s (note_title cur) (note_description cur) nid now) nid
        (cur\<lparr>note_title := ver_title v, note_description := ver_description v,
             note_updatedAt := now\<rparr>))"
  using assms findNote_id[OF assms(3)]
  by (simp add: revertHandler_def Let_def findUniqueNote_found findUniqueVersion_found)

lemma revertNote_Inr:
  assumes "revertNote s c nid versionId now = (Inr r, s')"
  obtains u and cur :: noteRow and v :: noteVersion and vid
  where "authenticate s c = Inr u" and "findNote s nid = Some cur"
    and "note_ownerId cur = user_id u" and "versionId = ParsedId vid"
    and "findVersion s vid = Some v" and "ver_noteId v = nid"
  using assms
  by (auto simp: revertNote_def checkNoteOwnership_def revertHandler_def findUniqueVersion_def
      split: sum.splits lookup.splits if_splits version_ref.splits)

text \<open>
  C5. On a well-formed store, when the owner's revert of a note to a version succeeds,
  the version that revert created (it has the next version id, which no version had
  before) holds the title and description the note had before the revert, and a second
  revert to that version succeeds and restores them exactly: the answer and the stored
  note carry the old title and description, and flag, password, owner and creation time
  are as before.
\<close>

theorem revert_round_trip:
  assumes "wf_store s" and "findNote s nid = Some n0"
    and "revertNote s c nid versionId t1 = (Inr r1, s1)"
  shows "findVersion s (nextVersionId s) = None \<and>
         findVersion s1 (nextVersionId s) =
           Some \<lparr>ver_id = nextVersionId s, ver_title = note_title n0,
                 ver_description = note_description n0, ver_noteId = nid, ver_createdAt = t1\<rparr> \<and>
         (\<exists>r2 s2 n2. revertNote s1 c nid (ParsedId (nextVersionId s)) t2 = (Inr r2, s2) \<and>
            r_title r2 = note_title n0 \<and> r_description r2 = Val (note_description n0) \<and>
            findNote s2 nid = Some n2 \<and>
            note_title n2 = note_title n0 \<and> note_description n2 = note_description n0 \<and>
            note_isProtected n2 = note_isProtected n0 \<and> note_password n2 = note_password n0 \<and>
            note_ownerId n2 = note_ownerId n0 \<and> note_createdAt n2 = note_createdAt n0)"
proof -
  from assms(3) obtain u and cur :: noteRow and v :: noteVersion and vid where
    a: "authenticate s c = Inr u" and c: "findNote s nid = Some cur"
    and o: "note_ownerId cur = user_id u" and p: "versionId = ParsedId vid"
    and v: "findVersion s vid = Some v" "ver_noteId v = nid"
    by (rule revertNote_Inr)
  from c assms(2) have [simp]: "cur = n0" by simp
  have id: "note_id n0 = nid" using assms(2) by (rule findNote_id)
  let ?n1 = "n0\<lparr>note_title := ver_title v, note_description := ver_description v,
                 note_updatedAt := t1\<rparr>"
  let ?v' = "\<lparr>ver_id = nextVersionId s, ver_title = note_title n0,
              ver_description = note_description n0, ver_noteId = nid, ver_createdAt = t1\<rparr>"
  have s1: "s1 = replaceNote (insertVersion s (note_title n0) (note_description n0) nid t1) nid ?n1"
    using assms(3) revertHandler_ok[OF v assms(2), of t1]
    by (simp add: revertNote_owner[OF a assms(2)] o[simplified] p)
  have fresh: "findVersion s (nextVersionId s) = None"
    using wf_store_fresh_version[OF assms(1)]
    by (auto simp: findVersion_def find_None_iff list_all_iff)
  have v': "findVersion s1 (nextVersionId s) = Some ?v'"
    by (simp add: s1 findVersion_insert_fresh[OF assms(1)])
  have a1: "authenticate s1 c = Inr u" using a by (simp add: s1)
  have n1: "findNote s1 nid = Some ?n1"
    using assms(2) id by (simp add: s1 findNote_replace)
  have o1: "note_ownerId ?n1 = user_id u" using o by simp
  let ?n2 = "?n1\<lparr>note_title := ver_title ?v', note_description := ver_description ?v',
                  note_updatedAt := t2\<rparr>"
  let ?s2 = "replaceNote (insertVersion s1 (note_title ?n1) (note_description ?n1) nid t2) nid ?n2"
  have second: "revertNote s1 c nid (ParsedId (nextVersionId s)) t2 =
      (Inr ((note_json ?n2)\<lparr>r_password := Undefined\<rparr>), ?s2)"
    using revertHandler_ok[OF v' _ n1, of t2] by (simp add: revertNote_owner[OF a1 n1 o1])
  have n2: "findNote ?s2 nid = Some ?n2"
    using n1 id by (simp add: findNote_replace)
  show ?thesis
    using fresh v' second n2 by (simp add: note_json_def)
qed

text \<open>
  A version id in the range of the column that no version has, and the id of a version
  of another note, are both answered with not found, and nothing is stored.
\<close>

lemma revert_unknown_version:
  assumes "authenticate s c = Inr u" and "findNote s nid = Some n"
    and "note_ownerId n = user_id u"
    and "(findVersion s vid = None \<and> fits_Int vid) \<or>
         (\<exists>v. findVersion s vid = Some v \<and> ver_noteId v \<noteq> nid)"
  shows "revertNote s c nid (ParsedId vid) now = (Inl (NotFoundError ''Version not found''), s)"
  using assms(4)
  by (auto simp: revertNote_owner[OF assms(1-3)] revertHandler_def findUniqueVersion_def
      findUnique_def)

text \<open>
  A version id the store refuses ends in the catch of the handler, whoever asks and
  whatever the store holds; nothing is stored.
\<close>

lemma revert_refused_version:
  assumes "authenticate s c = Inr u" and "findNote s nid = Some n"
    and "note_ownerId n = user_id u"
    and "findUniqueVersion s versionId = Threw"
  shows "revertNote s c nid versionId now = (Inl (InternalError ''Server error''), s)"
  using assms(4) by (simp add: revertNote_owner[OF assms(1-3)] revertHandler_def)

text \<open>The examples for the reverts, evaluated.\<close>

lemma ex_retitled_eq:
  "ex_retitled =
     \<lparr>userTable = [ex_alice, ex_bob],
      noteTable = [ex_retitled_note],
      versionTable = [\<lparr>ver_id = 1, ver_title = utf16 ''T1'', ver_description = utf16 ''D1'',
                       ver_noteId = 1, ver_createdAt = 10\<rparr>,
                      \<lparr>ver_id = 2, ver_title = utf16 ''T1'', ver_description = utf16 ''D1'',
                       ver_noteId = 1, ver_createdAt = 20\<rparr>],
      nextNoteId = 2, nextVersionId = 3\<rparr>"
  by (simp add: ex_retitled_def ex_retitled_note_def ex_plain_eq ex_retitle_body_def handler_defs
      ex_alice_def val_defs store_defs)

lemma ex_two_eq:
  "ex_two =
     \<lparr>userTable = [ex_alice, ex_bob],
      noteTable = [ex_plain_note,
                   \<lparr>note_id = 2, note_title = utf16 ''T1'', note_description = utf16 ''D1'',
                    note_isProtected = True, note_password = Some (utf16 ''$2a$12$secret1A!''),
                    note_ownerId = 1, note_createdAt = 11, note_updatedAt = 11\<rparr>],
      versionTable = [\<lparr>ver_id = 1, ver_title = utf16 ''T1'', ver_description = utf16 ''D1'',
                       ver_noteId = 1, ver_createdAt = 10\<rparr>,
                      \<lparr>ver_id = 2, ver_title = utf16 ''T1'', ver_description = utf16 ''D1'',
                       ver_noteId = 2, ver_createdAt = 11\<rparr>],
      nextNoteId = 3, nextVersionId = 3\<rparr>"
  by (simp add: ex_two_def ex_plain_eq ex_plain_note_def ex_secret_body_def handler_defs
      ex_alice_def ex_hasher_def val_defs store_defs)

lemma ex_retitled_facts:
  "wf_store ex_retitled" "findNote ex_retitled 1 = Some ex_retitled_note"
  "nextVersionId ex_retitled = 3"
  by (simp_all add: ex_retitled_eq wf_store_def findNote_def ex_retitled_note_def)

lemma ex_revert_first:
  "revertNote ex_retitled (Token 1) 1 (ParsedId 1) 30 =
     (Inr ((note_json (ex_retitled_note\<lparr>note_title := utf16 ''T1'', note_updatedAt := 30\<rparr>))
             \<lparr>r_password := Undefined\<rparr>), ex_reverted)"
  by (simp add: ex_reverted_def revertNote_def revertHandler_def ex_retitled_eq ex_retitled_note_def
      ex_alice_def val_defs store_defs)

theorem revert_round_trip_witness:
  "wf_store ex_retitled \<and> findNote ex_retitled 1 = Some ex_retitled_note \<and>
   revertNote ex_retitled (Token 1) 1 (ParsedId 1) 30 =
     (Inr ((note_json (ex_retitled_note\<lparr>note_title := utf16 ''T1'', note_updatedAt := 30\<rparr>))
             \<lparr>r_password := Undefined\<rparr>), ex_reverted) \<and>
   findVersion ex_retitled 3 = None \<and>
   findVersion ex_reverted 3 =
     Some \<lparr>ver_id = 3, ver_title = utf16 ''T2'', ver_description = utf16 ''D1'', ver_noteId = 1,
           ver_createdAt = 30\<rparr> \<and>
   (\<exists>r2 s2 n2. revertNote ex_reverted (Token 1) 1 (ParsedId 3) 40 = (Inr r2, s2) \<and>
      r_title r2 = utf16 ''T2'' \<and> r_description r2 = Val (utf16 ''D1'') \<and> findNote s2 1 = Some n2 \<and>
      note_title n2 = utf16 ''T2'' \<and> note_description n2 = utf16 ''D1'')"
proof -
  note t = revert_round_trip[OF ex_retitled_facts(1,2) ex_revert_first, of 40]
  have f: "note_title ex_retitled_note = utf16 ''T2''" "note_description ex_retitled_note = utf16 ''D1''"
    by (simp_all add: ex_retitled_note_def)
  from t have
    "findVersion ex_retitled 3 = None \<and>
     findVersion ex_reverted 3 =
       Some \<lparr>ver_id = 3, ver_title = utf16 ''T2'', ver_description = utf16 ''D1'', ver_noteId = 1,
             ver_createdAt = 30\<rparr> \<and>
     (\<exists>r2 s2 n2. revertNote ex_reverted (Token 1) 1 (ParsedId 3) 40 = (Inr r2, s2) \<and>
        r_title r2 = utf16 ''T2'' \<and> r_description r2 = Val (utf16 ''D1'') \<and> findNote s2 1 = Some n2 \<and>
        note_title n2 = utf16 ''T2'' \<and> note_description n2 = utf16 ''D1'')"
    unfolding ex_retitled_facts(3) f by blast
  with ex_retitled_facts(1,2) ex_revert_first show ?thesis by blast
qed

text \<open>
  In the store where Alice has two notes, reverting the first one to the unused id 99
  and to version 2, which belongs to the second note, is answered with not found.
\<close>

lemma revert_unknown_version_examples:
  "findVersion ex_two 99 = None \<and>
   revertNote ex_two (Token 1) 1 (ParsedId 99) 30 =
     (Inl (NotFoundError ''Version not found''), ex_two) \<and>
   map_option ver_noteId (findVersion ex_two 2) = Some 2 \<and>
   revertNote ex_two (Token 1) 1 (ParsedId 2) 30 =
     (Inl (NotFoundError ''Version not found''), ex_two)"
proof -
  have a: "authenticate ex_two (Token 1) = Inr ex_alice"
    and n: "findNote ex_two 1 = Some ex_plain_note"
    by (simp_all add: ex_two_eq authenticate_def findUser_def findNote_def ex_alice_def
        ex_plain_note_def)
  have m: "findVersion ex_two 99 = None \<and> fits_Int 99"
    by (simp add: ex_two_eq findVersion_def fits_Int_def)
  have x: "\<exists>v. findVersion ex_two 2 = Some v \<and> ver_noteId v \<noteq> 1"
    and x': "map_option ver_noteId (findVersion ex_two 2) = Some 2"
    by (simp_all add: ex_two_eq findVersion_def)
  from revert_unknown_version[OF a n ex_owner_plain disjI1[OF m], of 30]
    revert_unknown_version[OF a n ex_owner_plain disjI2[OF x], of 30]
  show ?thesis using m x' by blast
qed

text \<open>
  C8. The version list names its current entry \<^verbatim>\<open>'current'\<close>. When Alice, the owner,
  reverts her note with that version id, with no version id at all, or with the number
  2^63, the id identifies no persisted version, yet the answer is \<^verbatim>\<open>Server error\<close>
  and not \<^verbatim>\<open>Version not found\<close>: the handler hands the id to the store as it is and
  the store refuses it. The store is unchanged. With the id 99, which no version has,
  the answer is \<^verbatim>\<open>Version not found\<close>.
\<close>

theorem revert_refused_version_id:
  "revertNote ex_retitled (Token 1) 1 (RawId (Some (utf16 ''current''))) 30 =
     (Inl (InternalError ''Server error''), ex_retitled) \<and>
   revertNote ex_retitled (Token 1) 1 (RawId None) 30 =
     (Inl (InternalError ''Server error''), ex_retitled) \<and>
   findVersion ex_retitled (2 ^ 63) = None \<and>
   revertNote ex_retitled (Token 1) 1 (ParsedId (2 ^ 63)) 30 =
     (Inl (InternalError ''Server error''), ex_retitled) \<and>
   findVersion ex_retitled 99 = None \<and>
   revertNote ex_retitled (Token 1) 1 (ParsedId 99) 30 =
     (Inl (NotFoundError ''Version not found''), ex_retitled)"
proof -
  have a: "authenticate ex_retitled (Token 1) = Inr ex_alice"
    by (simp add: ex_retitled_eq authenticate_def findUser_def ex_alice_def)
  have o: "note_ownerId ex_retitled_note = user_id ex_alice"
    by (simp add: ex_retitled_note_def ex_alice_def)
  note r = revertNote_owner[OF a ex_retitled_facts(2) o]
  have v: "findVersion ex_retitled (2 ^ 63) = None" "findVersion ex_retitled 99 = None"
    by (simp_all add: ex_retitled_eq findVersion_def)
  show ?thesis
    using v by (simp add: r revertHandler_def findUniqueVersion_def findUnique_def fits_Int_def)
qed

section \<open>The list of notes\<close>

lemma select_meta_fields [simp]:
  "m_id (select_meta s n) = note_id n" "m_title (select_meta s n) = note_title n"
  "m_isProtected (select_meta s n) = note_isProtected n"
  "m_createdAt (select_meta s n) = note_createdAt n"
  "m_updatedAt (select_meta s n) = note_updatedAt n"
  "m_owner (select_meta s n) = map_option select_owner (findUser s (note_ownerId n))"
  by (simp_all add: select_meta_def)

lemma findUser_id: "findUser s uid = Some ow \<Longrightarrow> user_id ow = uid"
  by (auto simp: findUser_def dest: find_SomeD)

lemma sorted_desc_notesByUpdate: "sorted_wrt (\<ge>) (map note_updatedAt (notesByUpdate s))"
  by (simp add: notesByUpdate_def rev_map[symmetric] sorted_wrt_rev)

lemma set_notesByUpdate [simp]: "set (notesByUpdate s) = set (noteTable s)"
  by (simp add: notesByUpdate_def)

lemma mset_notesByUpdate [simp]: "mset (notesByUpdate s) = mset (noteTable s)"
  by (simp add: notesByUpdate_def)

text \<open>
  C10. For every authenticated caller the list of notes succeeds and holds exactly one
  row per note of the store, whoever owns it, ordered by last update descending. The
  row of a note carries its id, its title (also when the note is protected), its
  protection flag, its two timestamps, and the id, name and email of its owner.
\<close>

theorem listNotes_every_note:
  assumes "authenticate s c = Inr u"
  shows "\<exists>rows. listNotes s c = Inr rows \<and>
           mset (map m_id rows) = mset (map note_id (noteTable s)) \<and>
           sorted_wrt (\<ge>) (map m_updatedAt rows) \<and>
           (\<forall>n \<in> set (noteTable s). \<exists>row \<in> set rows.
              m_id row = note_id n \<and> m_title row = note_title n \<and>
              m_isProtected row = note_isProtected n \<and>
              m_createdAt row = note_createdAt n \<and> m_updatedAt row = note_updatedAt n \<and>
              (\<forall>ow. findUser s (note_ownerId n) = Some ow \<longrightarrow>
                 m_owner row = Some \<lparr>o_id = note_ownerId n, o_name = user_name ow,
                                      o_email = user_email ow\<rparr>))"
proof -
  let ?rows = "map (select_meta s) (notesByUpdate s)"
  have l: "listNotes s c = Inr ?rows" using assms by (simp add: listNotes_def)
  have ids: "map m_id ?rows = map note_id (notesByUpdate s)" by (simp add: comp_def)
  have m: "mset (map m_id ?rows) = mset (map note_id (noteTable s))"
    unfolding ids by simp
  have ups: "map m_updatedAt ?rows = map note_updatedAt (notesByUpdate s)" by (simp add: comp_def)
  have s: "sorted_wrt (\<ge>) (map m_updatedAt ?rows)"
    unfolding ups by (rule sorted_desc_notesByUpdate)
  have e: "\<forall>n \<in> set (noteTable s). \<exists>row \<in> set ?rows.
              m_id row = note_id n \<and> m_title row = note_title n \<and>
              m_isProtected row = note_isProtected n \<and>
              m_createdAt row = note_createdAt n \<and> m_updatedAt row = note_updatedAt n \<and>
              (\<forall>ow. findUser s (note_ownerId n) = Some ow \<longrightarrow>
                 m_owner row = Some \<lparr>o_id = note_ownerId n, o_name = user_name ow,
                                      o_email = user_email ow\<rparr>)"
  proof
    fix n assume n: "n \<in> set (noteTable s)"
    have "select_meta s n \<in> set ?rows" using n by simp
    moreover have "\<forall>ow. findUser s (note_ownerId n) = Some ow \<longrightarrow>
        m_owner (select_meta s n) = Some \<lparr>o_id = note_ownerId n, o_name = user_name ow,
                                      o_email = user_email ow\<rparr>"
      by (auto simp: select_owner_def dest: findUser_id)
    ultimately show "\<exists>row \<in> set ?rows.
              m_id row = note_id n \<and> m_title row = note_title n \<and>
              m_isProtected row = note_isProtected n \<and>
              m_createdAt row = note_createdAt n \<and> m_updatedAt row = note_updatedAt n \<and>
              (\<forall>ow. findUser s (note_ownerId n) = Some ow \<longrightarrow>
                 m_owner row = Some \<lparr>o_id = note_ownerId n, o_name = user_name ow,
                                      o_email = user_email ow\<rparr>)"
      by (intro bexI[of _ "select_meta s n"]) simp_all
  qed
  from l m s e show ?thesis by blast
qed

lemma ex_shared_eq:
  "ex_shared =
     \<lparr>userTable = [ex_alice, ex_bob],
      noteTable = [ex_secret_note,
                   \<lparr>note_id = 2, note_title = utf16 ''T1'', note_description = utf16 ''D1'',
                    note_isProtected = False, note_password = None,
                    note_ownerId = 2, note_createdAt = 11, note_updatedAt = 11\<rparr>],
      versionTable = [\<lparr>ver_id = 1, ver_title = utf16 ''T1'', ver_description = utf16 ''D1'',
                       ver_noteId = 1, ver_createdAt = 10\<rparr>,
                      \<lparr>ver_id = 2, ver_title = utf16 ''T1'', ver_description = utf16 ''D1'',
                       ver_noteId = 2, ver_createdAt = 11\<rparr>],
      nextNoteId = 3, nextVersionId = 3\<rparr>"
  by (simp add: ex_shared_def ex_secret_eq ex_secret_note_def ex_plain_body_def handler_defs
      ex_alice_def ex_bob_def ex_hasher_def val_defs store_defs)

theorem listNotes_every_note_witness:
  "authenticate ex_shared (Token 2) = Inr ex_bob \<and>
   ex_secret_note \<in> set (noteTable ex_shared) \<and>
   note_ownerId ex_secret_note \<noteq> user_id ex_bob \<and> note_isProtected ex_secret_note \<and>
   findUser ex_shared (note_ownerId ex_secret_note) = Some ex_alice \<and>
   (\<exists>rows. listNotes ex_shared (Token 2) = Inr rows \<and>
      mset (map m_id rows) = {#1, 2#} \<and>
      sorted_wrt (\<ge>) (map m_updatedAt rows) \<and>
      (\<exists>row \<in> set rows. m_id row = 1 \<and> m_title row = utf16 ''T1'' \<and> m_isProtected row \<and>
         m_createdAt row = 10 \<and> m_updatedAt row = 10 \<and>
         m_owner row = Some \<lparr>o_id = 1, o_name = utf16 ''Alice'', o_email = utf16 ''a@example.com''\<rparr>))"
proof -
  have a: "authenticate ex_shared (Token 2) = Inr ex_bob"
    by (simp add: ex_shared_eq authenticate_def findUser_def ex_alice_def ex_bob_def)
  have n: "ex_secret_note \<in> set (noteTable ex_shared)" by (simp add: ex_shared_eq)
  have o: "note_ownerId ex_secret_note \<noteq> user_id ex_bob" "note_isProtected ex_secret_note"
    by (simp_all add: ex_secret_note_def ex_bob_def)
  have f: "findUser ex_shared (note_ownerId ex_secret_note) = Some ex_alice"
    by (simp add: ex_shared_eq findUser_def ex_secret_note_def ex_alice_def)
  have i: "mset (map note_id (noteTable ex_shared)) = {#1, 2#}"
    by (simp add: ex_shared_eq ex_secret_note_def)
  from listNotes_every_note[OF a] obtain rows where
    r: "listNotes ex_shared (Token 2) = Inr rows"
      "mset (map m_id rows) = mset (map note_id (noteTable ex_shared))"
      "sorted_wrt (\<ge>) (map m_updatedAt rows)"
    and e: "\<forall>n \<in> set (noteTable ex_shared). \<exists>row \<in> set rows.
              m_id row = note_id n \<and> m_title row = note_title n \<and>
              m_isProtected row = note_isProtected n \<and>
              m_createdAt row = note_createdAt n \<and> m_updatedAt row = note_updatedAt n \<and>
              (\<forall>ow. findUser ex_shared (note_ownerId n) = Some ow \<longrightarrow>
                 m_owner row = Some \<lparr>o_id = note_ownerId n, o_name = user_name ow,
                                      o_email = user_email ow\<rparr>)"
    by blast
  from e n f obtain row where "row \<in> set rows"
    "m_id row = note_id ex_secret_note" "m_title row = note_title ex_secret_note"
    "m_isProtected row = note_isProtected ex_secret_note"
    "m_createdAt row = note_createdAt ex_secret_note"
    "m_updatedAt row = note_updatedAt ex_secret_note"
    "m_owner row = Some \<lparr>o_id = note_ownerId ex_secret_note, o_name = user_name ex_alice,
                                      o_email = user_email ex_alice\<rparr>"
    by blast
  then have "\<exists>row \<in> set rows. m_id row = 1 \<and> m_title row = utf16 ''T1'' \<and> m_isProtected row \<and>
         m_createdAt row = 10 \<and> m_updatedAt row = 10 \<and>
         m_owner row = Some \<lparr>o_id = 1, o_name = utf16 ''Alice'', o_email = utf16 ''a@example.com''\<rparr>"
    by (intro bexI[of _ row]) (simp_all add: ex_secret_note_def ex_alice_def)
  with r i a n o f show ?thesis by auto
qed

section \<open>Unlocking a note\<close>

text \<open>
  C7, as the code has it. For an unlock of an existing note by an authenticated caller:
  it fails with a validation error when the note is not protected; it fails with the
  validation error \<^verbatim>\<open>Password is required\<close> when the password is absent or empty, before
  the stored hash is looked at; it fails as unauthorized, with no note in the answer,
  when a non-empty password does not verify against the stored hash; and when a
  non-empty password verifies, the answer is the note with its title and description
  and without its password field.
\<close>

theorem unlock_outcomes:
  assumes "authenticate s c = Inr u" and "findNote s nid = Some n"
  shows "(\<not> note_isProtected n \<longrightarrow> (\<exists>msgs. unlockNote H s c nid pw = Inl (ValidationError msgs))) \<and>
         (\<not> truthy_str pw \<longrightarrow> unlockNote H s c nid pw = Inl (ValidationError [''Password is required''])) \<and>
         (note_isProtected n \<and> pw = Some p \<and> p \<noteq> [] \<and> note_password n = Some h \<and>
          \<not> bcrypt_compare H p h \<longrightarrow>
            unlockNote H s c nid pw = Inl (UnauthorizedError ''Invalid password'')) \<and>
         (note_isProtected n \<and> pw = Some p \<and> p \<noteq> [] \<and> note_password n = Some h \<and>
          bcrypt_compare H p h \<longrightarrow>
            (\<exists>r. unlockNote H s c nid pw = Inr r \<and> r_title r = note_title n \<and>
                 r_description r = Val (note_description n) \<and> r_password r = Undefined))"
  using assms
  by (auto simp: unlockNote_def truthy_str_def field_string_def note_json_def split: option.splits)

text \<open>
  Bob sends the empty password for Alice's protected note. It does not verify against
  the stored hash, yet the answer is the validation error, not unauthorized.
\<close>

theorem unlock_outcomes_counterexample:
  "findNote ex_secret 1 = Some ex_secret_note \<and> note_isProtected ex_secret_note \<and>
   note_password ex_secret_note = Some (utf16 ''$2a$12$secret1A!'') \<and>
   \<not> bcrypt_compare ex_hasher [] (utf16 ''$2a$12$secret1A!'') \<and>
   unlockNote ex_hasher ex_secret (Token 2) 1 (Some []) =
     Inl (ValidationError [''Password is required''])"
  by (simp add: ex_secret_eq ex_secret_note_def unlockNote_def ex_hasher_def ex_alice_def ex_bob_def
      val_defs store_defs)

lemma ex_shared_facts:
  "authenticate ex_shared (Token 2) = Inr ex_bob"
  "findNote ex_shared 1 = Some ex_secret_note"
  "\<exists>n. findNote ex_shared 2 = Some n \<and> \<not> note_isProtected n"
  by (simp_all add: ex_shared_eq authenticate_def findUser_def findNote_def ex_alice_def ex_bob_def
      ex_secret_note_def)

theorem unlock_outcomes_witness:
  "authenticate ex_shared (Token 2) = Inr ex_bob \<and>
   findNote ex_shared 1 = Some ex_secret_note \<and> note_isProtected ex_secret_note \<and>
   note_password ex_secret_note = Some (utf16 ''$2a$12$secret1A!'') \<and>
   (\<exists>n. findNote ex_shared 2 = Some n \<and> \<not> note_isProtected n) \<and>
   (\<exists>msgs. unlockNote ex_hasher ex_shared (Token 2) 2 (Some (utf16 ''secret1A!'')) =
      Inl (ValidationError msgs)) \<and>
   \<not> truthy_str None \<and>
   unlockNote ex_hasher ex_shared (Token 2) 1 None = Inl (ValidationError [''Password is required'']) \<and>
   \<not> bcrypt_compare ex_hasher (utf16 ''wrong'') (utf16 ''$2a$12$secret1A!'') \<and>
   unlockNote ex_hasher ex_shared (Token 2) 1 (Some (utf16 ''wrong'')) =
     Inl (UnauthorizedError ''Invalid password'') \<and>
   bcrypt_compare ex_hasher (utf16 ''secret1A!'') (utf16 ''$2a$12$secret1A!'') \<and>
   (\<exists>r. unlockNote ex_hasher ex_shared (Token 2) 1 (Some (utf16 ''secret1A!'')) = Inr r \<and>
      r_title r = utf16 ''T1'' \<and> r_description r = Val (utf16 ''D1'') \<and> r_password r = Undefined)"
proof -
  note a = ex_shared_facts(1) and n1 = ex_shared_facts(2)
  from ex_shared_facts(3) obtain n2 where n2: "findNote ex_shared 2 = Some n2" "\<not> note_isProtected n2"
    by blast
  have f: "note_isProtected ex_secret_note" "note_password ex_secret_note = Some (utf16 ''$2a$12$secret1A!'')"
    "note_title ex_secret_note = utf16 ''T1''" "note_description ex_secret_note = utf16 ''D1''"
    by (simp_all add: ex_secret_note_def)
  have h: "\<not> truthy_str None" "\<not> bcrypt_compare ex_hasher (utf16 ''wrong'') (utf16 ''$2a$12$secret1A!'')"
    "bcrypt_compare ex_hasher (utf16 ''secret1A!'') (utf16 ''$2a$12$secret1A!'')"
    by (simp_all add: truthy_str_def ex_hasher_def utf16_def)
  have e: "utf16 ''wrong'' \<noteq> []" "utf16 ''secret1A!'' \<noteq> []"
    by (simp_all add: utf16_def)
  from unlock_outcomes[OF a n2(1), where H = ex_hasher and pw = "Some (utf16 ''secret1A!'')"] n2(2)
  have c1: "\<exists>msgs. unlockNote ex_hasher ex_shared (Token 2) 2 (Some (utf16 ''secret1A!'')) =
      Inl (ValidationError msgs)"
    by blast
  from unlock_outcomes[OF a n1, where H = ex_hasher and pw = None] h(1)
  have c2: "unlockNote ex_hasher ex_shared (Token 2) 1 None =
      Inl (ValidationError [''Password is required''])"
    by blast
  from unlock_outcomes[OF a n1, where H = ex_hasher and pw = "Some (utf16 ''wrong'')" and p = "utf16 ''wrong''"
      and h = "utf16 ''$2a$12$secret1A!''"] f h(2) e
  have c3: "unlockNote ex_hasher ex_shared (Token 2) 1 (Some (utf16 ''wrong'')) =
     Inl (UnauthorizedError ''Invalid password'')"
    by simp
  from unlock_outcomes[OF a n1, where H = ex_hasher and pw = "Some (utf16 ''secret1A!'')"
      and p = "utf16 ''secret1A!''" and h = "utf16 ''$2a$12$secret1A!''"]
    f h(3) e
  have c4: "\<exists>r. unlockNote ex_hasher ex_shared (Token 2) 1 (Some (utf16 ''secret1A!'')) = Inr r \<and>
      r_title r = utf16 ''T1'' \<and> r_description r = Val (utf16 ''D1'') \<and> r_password r = Undefined"
    by simp
  show ?thesis
    using a n1 f(1,2) ex_shared_facts(3) c1 h c2 c3 c4 by blast
qed

end
